theory Spec2Isabelle
  imports Main
begin

section \<open>Time, ISO strings and Python values\<close>

text \<open>
  A naive \<open>datetime\<close> is the number of microseconds since a fixed epoch, a \<open>date\<close> is a
  day number, and a duration (\<open>timedelta\<close>, the argument of \<open>time.sleep\<close>) is a number
  of microseconds. \<open>total_seconds()\<close> and the float arithmetic on it are read exactly, in
  microseconds.
\<close>

type_synonym datetime = int
type_synonym date = int

definition seconds :: "int \<Rightarrow> int" where
  "seconds n = n * 1000000"

definition date_of :: "datetime \<Rightarrow> date" where
  "date_of t = t div seconds 86400"

definition midnight :: "date \<Rightarrow> datetime" where
  "midnight d = d * seconds 86400"

text \<open>
  The strings that \<open>date.isoformat()\<close> and \<open>datetime.isoformat()\<close> emit are represented by
  the value they denote, tagged with the method that produced them. A Python value handed
  to \<open>datetime.fromisoformat\<close> is either such a \<open>str\<close> or a \<open>datetime\<close> object; the library
  raises \<open>TypeError\<close> for an argument that is not a \<open>str\<close>.
\<close>

datatype iso_string = IsoDate date | IsoDatetime datetime

datatype pyval = PyStr iso_string | PyDatetime datetime

datatype error = TypeError | ApiError

fun fromisoformat :: "pyval \<Rightarrow> error + datetime" where
  "fromisoformat (PyStr (IsoDate d)) = Inr (midnight d)"
| "fromisoformat (PyStr (IsoDatetime t)) = Inr t"
| "fromisoformat (PyDatetime t) = Inl TypeError"

text \<open>The list comprehension \<open>[datetime.fromisoformat(ts) for ts in xs]\<close>: the first
  element that raises aborts the comprehension.\<close>

fun fromisoformat_all :: "pyval list \<Rightarrow> error + datetime list" where
  "fromisoformat_all [] = Inr []"
| "fromisoformat_all (v # vs) =
     (case fromisoformat v of
        Inl e \<Rightarrow> Inl e
      | Inr t \<Rightarrow> (case fromisoformat_all vs of Inl e \<Rightarrow> Inl e | Inr ts \<Rightarrow> Inr (t # ts)))"

text \<open>\<open>if reset_date: reset_date = datetime.fromisoformat(reset_date).date()\<close>, on the
  \<open>str | None\<close> that \<open>json.load\<close> returned.\<close>

definition parse_reset_date :: "iso_string option \<Rightarrow> error + date option" where
  "parse_reset_date r =
     (case r of
        None \<Rightarrow> Inr None
      | Some s \<Rightarrow> (case fromisoformat (PyStr s) of Inl e \<Rightarrow> Inl e | Inr t \<Rightarrow> Inr (Some (date_of t))))"

section \<open>Python strings\<close>

text \<open>
  A Python \<open>str\<close> that the program strips, lower-cases or tests for emptiness is the list
  of its code points; \<open>ascii\<close> writes one down from an ASCII literal. File names and URLs,
  which the program only passes on and compares, stay Isabelle strings.
\<close>

type_synonym pystr = "nat list"

definition ascii :: "string \<Rightarrow> pystr" where
  "ascii s = map of_char s"

text \<open>\<open>str.isspace\<close> on one code point (the whitespace table of Unicode) and
  \<open>str.strip()\<close>, which removes leading and trailing whitespace.\<close>

definition isspace :: "nat \<Rightarrow> bool" where
  "isspace c =
     (c \<in> set [0x09, 0x0A, 0x0B, 0x0C, 0x0D, 0x1C, 0x1D, 0x1E, 0x1F, 0x20, 0x85, 0xA0, 0x1680,
               0x2000, 0x2001, 0x2002, 0x2003, 0x2004, 0x2005, 0x2006, 0x2007, 0x2008, 0x2009,
               0x200A, 0x2028, 0x2029, 0x202F, 0x205F, 0x3000])"

definition strip :: "pystr \<Rightarrow> pystr" where
  "strip s = rev (dropWhile isspace (rev (dropWhile isspace s)))"

text \<open>
  \<open>str.lower()\<close> applies the lower-case mapping of Unicode, a table of the Python
  library. The functions that call it take it as their parameter \<open>lower\<close>, and what is
  proved of them holds for every such function. On ASCII text it is \<open>ascii_lower\<close>.
\<close>

definition ascii_lower :: "pystr \<Rightarrow> pystr" where
  "ascii_lower s = map (\<lambda>c. if 65 \<le> c \<and> c \<le> 90 then c + 32 else c) s"

section \<open>The world: clock, files, sleeps, external calls\<close>

text \<open>
  The JSON document that \<open>save_quota_state\<close> writes, and the three things \<open>load_quota_state\<close>
  can find at a path: no file, a file it cannot read or parse, or such a document.
\<close>

record json_state =
  j_daily_request_count :: int
  j_daily_reset_date :: "iso_string option"
  j_request_timestamps :: "iso_string list"

datatype file_content = Absent | Malformed | Json json_state

text \<open>
  \<open>datetime.now()\<close> reads \<open>clock\<close>; \<open>time.sleep d\<close> advances it by \<open>d\<close> and is recorded
  in \<open>sleeps\<close>. \<open>writable p\<close> says whether \<open>open(p, 'w')\<close> succeeds, and with it the
  write. \<open>gen_calls\<close> records the texts sent to \<open>client.models.generate_content\<close>.
\<close>

record world =
  clock :: datetime
  files :: "string \<Rightarrow> file_content"
  writable :: "string \<Rightarrow> bool"
  sleeps :: "int list"
  gen_calls :: "pystr list"

definition sleep :: "int \<Rightarrow> world \<Rightarrow> world" where
  "sleep d w = w\<lparr>clock := clock w + d, sleeps := sleeps w @ [d]\<rparr>"

section \<open>Quota tracking (scraper.py 25-136, parse_resume_with_ai.py 14-126)\<close>

text \<open>
  The two modules define the same four functions, word for word up to logging, over their
  own module constants. \<open>MAX_REQUESTS_PER_MINUTE\<close> is 4 in both; the daily cap and the
  file name are the module's, so the functions below take them as the constants of the
  module they run in.
\<close>

definition MAX_REQUESTS_PER_MINUTE :: int where
  "MAX_REQUESTS_PER_MINUTE = 4"

text \<open>\<open>SECONDS_BETWEEN_REQUESTS = 60 / MAX_REQUESTS_PER_MINUTE\<close>, as a duration.\<close>

definition SECONDS_BETWEEN_REQUESTS :: int where
  "SECONDS_BETWEEN_REQUESTS = seconds 60 div MAX_REQUESTS_PER_MINUTE"

record quota_constants =
  MAX_REQUESTS_PER_DAY :: int
  QUOTA_STATE_FILE :: string

definition scraper :: quota_constants where
  "scraper = \<lparr>MAX_REQUESTS_PER_DAY = 20, QUOTA_STATE_FILE = ''quota_state.json''\<rparr>"

definition resume_parser :: quota_constants where
  "resume_parser = \<lparr>MAX_REQUESTS_PER_DAY = 19, QUOTA_STATE_FILE = ''quota_state.json''\<rparr>"

text \<open>The dict that \<open>load_quota_state\<close> returns: the reset date is still the \<open>str\<close> of the
  JSON document, the timestamps are already \<open>datetime\<close> objects.\<close>

record quota_state =
  daily_request_count :: int
  daily_reset_date :: "iso_string option"
  request_timestamps :: "datetime list"

definition fresh_state :: quota_state where
  "fresh_state = \<lparr>daily_request_count = 0, daily_reset_date = None, request_timestamps = []\<rparr>"

definition load_quota_state :: "quota_constants \<Rightarrow> world \<Rightarrow> quota_state" where
  "load_quota_state k w =
     (case files w (QUOTA_STATE_FILE k) of
        Absent \<Rightarrow> fresh_state
      | Malformed \<Rightarrow> fresh_state
      | Json j \<Rightarrow>
          (case fromisoformat_all (map PyStr (j_request_timestamps j)) of
             Inl e \<Rightarrow> fresh_state
           | Inr ts \<Rightarrow> \<lparr>daily_request_count = j_daily_request_count j,
                        daily_reset_date = j_daily_reset_date j,
                        request_timestamps = ts\<rparr>))"

definition save_quota_state ::
  "quota_constants \<Rightarrow> int \<Rightarrow> date option \<Rightarrow> datetime list \<Rightarrow> world \<Rightarrow> world" where
  "save_quota_state k daily_count reset_date timestamps w =
     (if writable w (QUOTA_STATE_FILE k)
      then w\<lparr>files := (files w)(QUOTA_STATE_FILE k :=
                 Json \<lparr>j_daily_request_count = daily_count,
                       j_daily_reset_date = map_option IsoDate reset_date,
                       j_request_timestamps = map IsoDatetime timestamps\<rparr>)\<rparr>
      else w)"

text \<open>The steps of \<open>check_and_enforce_quota\<close>, in the order of the source.\<close>

definition new_day_reset ::
  "datetime \<Rightarrow> int \<Rightarrow> date option \<Rightarrow> datetime list \<Rightarrow> int \<times> date \<times> datetime list" where
  "new_day_reset current_time c d ts =
     (case d of
        None \<Rightarrow> (0, date_of current_time, [])
      | Some d' \<Rightarrow> if date_of current_time > d' then (0, date_of current_time, []) else (c, d', ts))"

text \<open>Python's \<open>min\<close> and \<open>max\<close> of a list of datetimes. Both raise on an empty list; the
  callers below reach them only with at least four elements, respectively at least one.\<close>

fun min_list :: "int list \<Rightarrow> int" where
  "min_list [] = 0"
| "min_list [x] = x"
| "min_list (x # y # ys) = min x (min_list (y # ys))"

fun max_list :: "int list \<Rightarrow> int" where
  "max_list [] = 0"
| "max_list [x] = x"
| "max_list (x # y # ys) = max x (max_list (y # ys))"

definition rpm_wait :: "datetime list \<Rightarrow> world \<Rightarrow> world" where
  "rpm_wait ts w =
     (if int (length ts) \<ge> MAX_REQUESTS_PER_MINUTE
      then (let oldest_request = min_list ts;
                wait_time = seconds 60 - (clock w - oldest_request)
            in if wait_time > 0 then sleep (wait_time + seconds 1) w else w)
      else w)"

definition spacing_wait :: "datetime list \<Rightarrow> world \<Rightarrow> world" where
  "spacing_wait ts w =
     (if ts \<noteq> []
      then (let last_request = max_list ts;
                elapsed = clock w - last_request
            in if elapsed < SECONDS_BETWEEN_REQUESTS
               then sleep (SECONDS_BETWEEN_REQUESTS - elapsed) w else w)
      else w)"

definition check_and_enforce_quota :: "quota_constants \<Rightarrow> world \<Rightarrow> (error + bool) \<times> world" where
  "check_and_enforce_quota k w =
     (let state = load_quota_state k w in
      case parse_reset_date (daily_reset_date state) of
        Inl e \<Rightarrow> (Inl e, w)
      | Inr d \<Rightarrow>
          (case new_day_reset (clock w) (daily_request_count state) d (request_timestamps state) of
             (c, d', ts) \<Rightarrow>
               if c \<ge> MAX_REQUESTS_PER_DAY k then (Inr False, w)
               else
                 (let ts' = filter (\<lambda>t. t > clock w - seconds 60) ts;
                      w1 = rpm_wait ts' w;
                      w2 = spacing_wait ts' w1
                  in (Inr True, save_quota_state k (c + 1) (Some d') (ts' @ [clock w2]) w2))))"

text \<open>
  The failure path of both callers (scraper.py 200-209, parse_resume_with_ai.py 167-179),
  commented there "Decrement counter since request failed": reload, decrement floored at
  zero, convert date and timestamps, save. The timestamps of the reloaded state are
  \<open>datetime\<close> objects, and the block passes each of them to \<open>datetime.fromisoformat\<close>.
\<close>

definition release_failed_request :: "quota_constants \<Rightarrow> world \<Rightarrow> (error + unit) \<times> world" where
  "release_failed_request k w =
     (let state = load_quota_state k w;
          c = max 0 (daily_request_count state - 1)
      in case parse_reset_date (daily_reset_date state) of
           Inl e \<Rightarrow> (Inl e, w)
         | Inr reset_date \<Rightarrow>
             (case fromisoformat_all (map PyDatetime (request_timestamps state)) of
                Inl e \<Rightarrow> (Inl e, w)
              | Inr timestamps \<Rightarrow> (Inr (), save_quota_state k c reset_date timestamps w)))"

section \<open>The callers of the text-generation service\<close>

text \<open>
  \<open>gen text\<close> is the outcome of \<open>client.models.generate_content\<close> on the prompt built from
  \<open>text\<close>: the response text, or an exception.
\<close>

definition convert_plain_text_to_markdown_with_ai ::
  "(pystr \<Rightarrow> error + pystr) \<Rightarrow> pystr \<Rightarrow> world \<Rightarrow> (error + pystr) \<times> world" where
  "convert_plain_text_to_markdown_with_ai gen text w =
     (if text = [] then (Inr [], w)
      else
        (case check_and_enforce_quota scraper w of
           (Inl e, w1) \<Rightarrow> (Inl e, w1)
         | (Inr False, w1) \<Rightarrow> (Inr text, w1)
         | (Inr True, w1) \<Rightarrow>
             (let w2 = w1\<lparr>gen_calls := gen_calls w1 @ [text]\<rparr> in
              case gen text of
                Inr response_text \<Rightarrow>
                  (let markdown_content = strip response_text
                   in if markdown_content = [] then (Inr text, w2) else (Inr markdown_content, w2))
              | Inl e \<Rightarrow>
                  (case release_failed_request scraper w2 of
                     (Inl e', w3) \<Rightarrow> (Inl e', w3)
                   | (Inr u, w3) \<Rightarrow> (Inr text, w3)))))"

text \<open>\<open>parse_resume_with_ai\<close> returns \<open>None\<close> when the quota check rejects, the response
  text on success, and ends its failure path with \<open>raise\<close>.\<close>

definition parse_resume_with_ai ::
  "(pystr \<Rightarrow> error + pystr) \<Rightarrow> pystr \<Rightarrow> world \<Rightarrow> (error + pystr option) \<times> world" where
  "parse_resume_with_ai gen resume_text w =
     (case check_and_enforce_quota resume_parser w of
        (Inl e, w1) \<Rightarrow> (Inl e, w1)
      | (Inr False, w1) \<Rightarrow> (Inr None, w1)
      | (Inr True, w1) \<Rightarrow>
          (let w2 = w1\<lparr>gen_calls := gen_calls w1 @ [resume_text]\<rparr> in
           case gen resume_text of
             Inr response_text \<Rightarrow> (Inr (Some response_text), w2)
           | Inl e \<Rightarrow>
               (case release_failed_request resume_parser w2 of
                  (Inl e', w3) \<Rightarrow> (Inl e', w3)
                | (Inr u, w3) \<Rightarrow> (Inl e, w3))))"

section \<open>Observations on the persisted quota state\<close>

definition persisted_count :: "quota_constants \<Rightarrow> world \<Rightarrow> int" where
  "persisted_count k w = daily_request_count (load_quota_state k w)"

definition persisted_reset_date :: "quota_constants \<Rightarrow> world \<Rightarrow> error + date option" where
  "persisted_reset_date k w = parse_reset_date (daily_reset_date (load_quota_state k w))"

definition persisted_timestamps :: "quota_constants \<Rightarrow> world \<Rightarrow> datetime list" where
  "persisted_timestamps k w = request_timestamps (load_quota_state k w)"

text \<open>The daily count that \<open>check_and_enforce_quota\<close> compares with the cap: the loaded
  count after the new-day reset step.\<close>

definition count_after_reset :: "quota_constants \<Rightarrow> world \<Rightarrow> int option" where
  "count_after_reset k w =
     (let state = load_quota_state k w in
      case parse_reset_date (daily_reset_date state) of
        Inl e \<Rightarrow> None
      | Inr d \<Rightarrow> Some (fst (new_day_reset (clock w) (daily_request_count state) d
                               (request_timestamps state))))"

text \<open>A history of one module's process: admission calls, failure-path releases, and time
  passing between them.\<close>

datatype event = Admit | Release | Elapse int

fun run :: "quota_constants \<Rightarrow> event list \<Rightarrow> world \<Rightarrow> world" where
  "run k [] w = w"
| "run k (Admit # es) w = run k es (snd (check_and_enforce_quota k w))"
| "run k (Release # es) w = run k es (snd (release_failed_request k w))"
| "run k (Elapse d # es) w = run k es (w\<lparr>clock := clock w + d\<rparr>)"

text \<open>Concrete worlds: no state file yet, at 10:00 on day 20000; the same with a state file
  that cannot be written; and a state file holding a given count for the current day.\<close>

definition ten_o_clock :: datetime where
  "ten_o_clock = midnight 20000 + seconds 36000"

definition first_run :: world where
  "first_run = \<lparr>clock = ten_o_clock, files = (\<lambda>p. Absent), writable = (\<lambda>p. True),
                sleeps = [], gen_calls = []\<rparr>"

definition read_only_run :: world where
  "read_only_run = \<lparr>clock = ten_o_clock, files = (\<lambda>p. Absent), writable = (\<lambda>p. False),
                    sleeps = [], gen_calls = []\<rparr>"

definition used_today :: "int \<Rightarrow> world" where
  "used_today n =
     \<lparr>clock = ten_o_clock,
      files = (\<lambda>p. Absent)(''quota_state.json'' :=
                Json \<lparr>j_daily_request_count = n, j_daily_reset_date = Some (IsoDate 20000),
                      j_request_timestamps = [IsoDatetime (ten_o_clock - seconds 5)]\<rparr>),
      writable = (\<lambda>p. True), sleeps = [], gen_calls = []\<rparr>"

text \<open>A state file holding a given count for the current day and no timestamps.\<close>

definition no_recent_calls :: "int \<Rightarrow> world" where
  "no_recent_calls n =
     \<lparr>clock = ten_o_clock,
      files = (\<lambda>p. Absent)(''quota_state.json'' :=
                Json \<lparr>j_daily_request_count = n, j_daily_reset_date = Some (IsoDate 20000),
                      j_request_timestamps = []\<rparr>),
      writable = (\<lambda>p. True), sleeps = [], gen_calls = []\<rparr>"

definition failing :: "pystr \<Rightarrow> error + pystr" where
  "failing text = Inl ApiError"

section \<open>Deduplication against the store (scraper.py 496-561, 754-847)\<close>

text \<open>
  An element of the board-source search results: something that is not a dict, or a dict
  of which the filter reads \<open>uuid\<close>, \<open>title\<close>, and the \<open>name\<close> of \<open>hiringCompany\<close> and
  \<open>postedCompany\<close>. A company field is \<open>None\<close> when the key is missing or is not a dict,
  and \<open>Some n\<close> for a dict whose \<open>name\<close> is \<open>n\<close> (missing: \<open>None\<close>).
\<close>

datatype job_item =
  NotADict
| JobDict (item_uuid: "pystr option") (item_hiringCompany: "pystr option option")
          (item_postedCompany: "pystr option option") (item_title: "pystr option")

text \<open>\<open>isinstance(c, dict) and c.get('name')\<close>: a dict with a non-empty name.\<close>

definition company_field_name :: "pystr option option \<Rightarrow> pystr option" where
  "company_field_name c =
     (case c of
        Some (Some n) \<Rightarrow> if n \<noteq> [] then Some n else None
      | _ \<Rightarrow> None)"

fun get_careers_future_job_company_name :: "job_item \<Rightarrow> pystr option" where
  "get_careers_future_job_company_name NotADict = None"
| "get_careers_future_job_company_name (JobDict u hiring_company posted_company t) =
     (case company_field_name hiring_company of
        Some n \<Rightarrow> Some n
      | None \<Rightarrow> company_field_name posted_company)"

text \<open>\<open>str(job_item.get('uuid'))\<close>: a missing uuid becomes the text \<open>None\<close>.\<close>

definition str_of_uuid :: "pystr option \<Rightarrow> pystr" where
  "str_of_uuid u = (case u of None \<Rightarrow> ascii ''None'' | Some s \<Rightarrow> s)"

text \<open>\<open>n = None; if x: n = x.strip().lower()\<close>.\<close>

definition normalized :: "(pystr \<Rightarrow> pystr) \<Rightarrow> pystr option \<Rightarrow> pystr option" where
  "normalized lower x =
     (case x of
        None \<Rightarrow> None
      | Some s \<Rightarrow> if s \<noteq> [] then Some (lower (strip s)) else None)"

text \<open>\<open>normalized_company and normalized_title and (key in company_title_set)\<close>.\<close>

definition combo_exists :: "(pystr \<Rightarrow> pystr) \<Rightarrow> (pystr \<times> pystr) set \<Rightarrow> job_item \<Rightarrow> bool" where
  "combo_exists lower company_title_set job_item =
     (case (normalized lower (get_careers_future_job_company_name job_item),
            normalized lower (case job_item of NotADict \<Rightarrow> None | JobDict u h p t \<Rightarrow> t)) of
        (Some normalized_company, Some normalized_title) \<Rightarrow>
          normalized_company \<noteq> [] \<and> normalized_title \<noteq> [] \<and>
          (normalized_company, normalized_title) \<in> company_title_set
      | _ \<Rightarrow> False)"

text \<open>Phase 3 of \<open>process_careers_future_query\<close>: the loop that builds
  \<open>new_job_ids_to_process\<close> from the search results (the skip counters are only logged).\<close>

fun new_job_ids_to_process ::
  "(pystr \<Rightarrow> pystr) \<Rightarrow> pystr set \<Rightarrow> (pystr \<times> pystr) set \<Rightarrow> job_item list \<Rightarrow> pystr list" where
  "new_job_ids_to_process lower job_ids_set company_title_set [] = []"
| "new_job_ids_to_process lower job_ids_set company_title_set (job_item # rest) =
     (case job_item of
        NotADict \<Rightarrow> new_job_ids_to_process lower job_ids_set company_title_set rest
      | JobDict u h p t \<Rightarrow>
          (let job_uuid = str_of_uuid u in
           if job_uuid \<noteq> [] \<and> job_uuid \<in> job_ids_set
           then new_job_ids_to_process lower job_ids_set company_title_set rest
           else if combo_exists lower company_title_set job_item
           then new_job_ids_to_process lower job_ids_set company_title_set rest
           else job_uuid # new_job_ids_to_process lower job_ids_set company_title_set rest))"

text \<open>The dict that a detail fetch returns.\<close>

record job_details =
  job_id :: "pystr option"
  company :: "pystr option"
  job_title :: "pystr option"
  location :: "pystr option"
  level :: "pystr option"
  provider :: "pystr option"
  description :: "pystr option"
  posted_at :: "pystr option"

text \<open>The detail phase of both sources keeps a fetched record when its description is not
  blank and its \<open>job_id\<close> is not \<open>None\<close>.\<close>

definition has_description_and_id :: "job_details \<Rightarrow> bool" where
  "has_description_and_id details =
     ((case description details of None \<Rightarrow> False | Some d \<Rightarrow> d \<noteq> [] \<and> strip d \<noteq> []) \<and>
      job_id details \<noteq> None)"

fun detailed_new_jobs :: "(pystr \<Rightarrow> job_details option) \<Rightarrow> pystr list \<Rightarrow> job_details list" where
  "detailed_new_jobs fetch [] = []"
| "detailed_new_jobs fetch (i # ids) =
     (case fetch i of
        None \<Rightarrow> detailed_new_jobs fetch ids
      | Some details \<Rightarrow>
          if has_description_and_id details then details # detailed_new_jobs fetch ids
          else detailed_new_jobs fetch ids)"

text \<open>
  \<open>process_careers_future_query\<close>, from the search results on. \<open>existing\<close> is what
  \<open>get_existing_jobs_from_supabase\<close> returned (\<open>None\<close>: it raised, and both sets are taken
  empty); \<open>fetch\<close> is \<open>_fetch_careers_future_job_details\<close>. The result is the list handed
  to the store, together with the identifiers whose details were requested, in order.
\<close>

definition process_careers_future_query ::
  "(pystr \<Rightarrow> pystr) \<Rightarrow> job_item list \<Rightarrow> (pystr set \<times> (pystr \<times> pystr) set) option \<Rightarrow>
   (pystr \<Rightarrow> job_details option) \<Rightarrow> job_details list \<times> pystr list" where
  "process_careers_future_query lower careers_future_jobs existing fetch =
     (if careers_future_jobs = [] then ([], [])
      else
        (case (case existing of None \<Rightarrow> ({}, {}) | Some sets \<Rightarrow> sets) of
           (job_ids_set_supabase, company_title_set_supabase) \<Rightarrow>
             (let ids = new_job_ids_to_process lower job_ids_set_supabase
                          company_title_set_supabase careers_future_jobs
              in (detailed_new_jobs fetch ids, ids))))"

text \<open>
  \<open>process_linkedin_query\<close>, from the scraped identifiers on (lines 504-561). Line 509
  takes \<open>list(set(scraped_job_ids))\<close>: the scraped identifiers without repetition, in the
  iteration order of the set, which Python does not specify and which differs from one
  process to the next for strings. \<open>set_order\<close> is that listing. Line 517 filters it against
  the known identifiers (the identifiers are strings, so \<open>str\<close> leaves them as they are);
  the known pairs are fetched with them and not used.
\<close>

definition linkedin_new_job_ids_to_process ::
  "(pystr list \<Rightarrow> pystr list) \<Rightarrow> pystr set \<Rightarrow> pystr list \<Rightarrow> pystr list" where
  "linkedin_new_job_ids_to_process set_order job_ids_set scraped_job_ids =
     (let unique_linkedin_job_ids = set_order scraped_job_ids
      in [job_id \<leftarrow> unique_linkedin_job_ids. job_id \<notin> job_ids_set])"

definition process_linkedin_query ::
  "(pystr list \<Rightarrow> pystr list) \<Rightarrow> pystr list \<Rightarrow> pystr set \<times> (pystr \<times> pystr) set \<Rightarrow>
   (pystr \<Rightarrow> job_details option) \<Rightarrow> job_details list \<times> pystr list" where
  "process_linkedin_query set_order scraped_job_ids existing fetch =
     (if scraped_job_ids = [] then ([], [])
      else
        (case existing of
           (job_ids_set, company_title_set) \<Rightarrow>
             (let ids = linkedin_new_job_ids_to_process set_order job_ids_set scraped_job_ids
              in if ids = [] then ([], []) else (detailed_new_jobs fetch ids, ids))))"

text \<open>The two tiers as the specification words them, for comparison with the loop. A
  company or title is usable when it is not empty and its normalized form is not empty.\<close>

definition known_id :: "pystr set \<Rightarrow> job_item \<Rightarrow> bool" where
  "known_id ids item =
     (case item of NotADict \<Rightarrow> False
      | JobDict u h p t \<Rightarrow> str_of_uuid u \<noteq> [] \<and> str_of_uuid u \<in> ids)"

definition is_dict :: "job_item \<Rightarrow> bool" where
  "is_dict item = (case item of NotADict \<Rightarrow> False | JobDict u h p t \<Rightarrow> True)"

definition item_title_of :: "job_item \<Rightarrow> pystr option" where
  "item_title_of item = (case item of NotADict \<Rightarrow> None | JobDict u h p t \<Rightarrow> t)"

definition usable :: "(pystr \<Rightarrow> pystr) \<Rightarrow> pystr \<Rightarrow> bool" where
  "usable lower s = (s \<noteq> [] \<and> lower (strip s) \<noteq> [])"

definition known_pair :: "(pystr \<Rightarrow> pystr) \<Rightarrow> (pystr \<times> pystr) set \<Rightarrow> job_item \<Rightarrow> bool" where
  "known_pair lower pairs item =
     (case (get_careers_future_job_company_name item, item_title_of item) of
        (Some c, Some t) \<Rightarrow>
          usable lower c \<and> usable lower t \<and> (lower (strip c), lower (strip t)) \<in> pairs
      | _ \<Rightarrow> False)"

definition lacks_company_or_title :: "(pystr \<Rightarrow> pystr) \<Rightarrow> job_item \<Rightarrow> bool" where
  "lacks_company_or_title lower item =
     (case (get_careers_future_job_company_name item, item_title_of item) of
        (Some c, Some t) \<Rightarrow> \<not> (usable lower c \<and> usable lower t)
      | _ \<Rightarrow> True)"

definition retained ::
  "(pystr \<Rightarrow> pystr) \<Rightarrow> pystr set \<Rightarrow> (pystr \<times> pystr) set \<Rightarrow> job_item \<Rightarrow> bool" where
  "retained lower ids pairs item =
     (is_dict item \<and> \<not> known_id ids item \<and> \<not> known_pair lower pairs item)"

definition uuid_text :: "job_item \<Rightarrow> pystr" where
  "uuid_text item = (case item of NotADict \<Rightarrow> [] | JobDict u h p t \<Rightarrow> str_of_uuid u)"

text \<open>A re-posting: identifier \<open>X\<close>, listed with company \<open>Acme\<close> and title \<open>Engineer\<close>, whose
  detail record carries another company and title.\<close>

definition reposting :: job_item where
  "reposting =
     JobDict (Some (ascii ''X'')) (Some (Some (ascii ''Acme ''))) None
       (Some (ascii '' Engineer''))"

definition reposting_details :: "pystr \<Rightarrow> job_details option" where
  "reposting_details i =
     Some \<lparr>job_id = Some i, company = Some (ascii ''Other''), job_title = Some (ascii ''Other''),
           location = Some (ascii ''Singapore''), level = Some (ascii ''Not applicable''),
           provider = Some (ascii ''careers_future''), description = Some (ascii ''text''),
           posted_at = Some []\<rparr>"

definition nameless :: job_item where
  "nameless = JobDict (Some (ascii ''Y'')) None None (Some (ascii ''Engineer''))"

definition already_stored :: job_item where
  "already_stored =
     JobDict (Some (ascii ''A'')) (Some (Some (ascii ''Initech''))) None (Some (ascii ''Clerk''))"

text \<open>The known identifiers and the known pair of the examples, and the scraped
  identifiers \<open>A\<close>, \<open>C\<close>, \<open>D\<close>.\<close>

definition known_ids :: "pystr set" where
  "known_ids = {ascii ''A'', ascii ''B''}"

definition known_pairs :: "(pystr \<times> pystr) set" where
  "known_pairs = {(ascii ''acme'', ascii ''engineer'')}"

definition scraped_ACD :: "pystr list" where
  "scraped_ACD = [ascii ''A'', ascii ''C'', ascii ''D'']"

section \<open>Retrying on HTTP 429 (scraper.py 255-288, 356-386)\<close>

text \<open>
  What one \<open>requests.get\<close> followed by \<open>raise_for_status\<close> gives: a response, an
  \<open>HTTPError\<close> with its status code, or another \<open>RequestException\<close> (timeout, connection
  failure). \<open>srv n\<close> is the outcome of the \<open>n\<close>-th request of the loop, counted from 0.
\<close>

datatype http_outcome = Response string | HTTPError int | RequestException

text \<open>
  The retry loop, the same in \<open>_fetch_linkedin_job_ids\<close> and \<open>_fetch_linkedin_job_details\<close>;
  \<open>max_retries\<close> is \<open>config.MAX_RETRIES\<close>. It yields the response (\<open>None\<close> where the source
  sets \<open>res = None\<close> or returns \<open>None\<close>), the final value of \<open>retries\<close> and the number
  of requests sent. The backoff sleep and the new user agent precede each retry.
\<close>

function fetch_with_retries ::
  "int \<Rightarrow> (nat \<Rightarrow> http_outcome) \<Rightarrow> int \<Rightarrow> nat \<Rightarrow> string option \<times> int \<times> nat" where
  "fetch_with_retries max_retries srv retries n =
     (if retries \<le> max_retries
      then (case srv n of
              Response body \<Rightarrow> (Some body, retries, Suc n)
            | HTTPError status_code \<Rightarrow>
                if status_code = 429 \<and> retries < max_retries
                then fetch_with_retries max_retries srv (retries + 1) (Suc n)
                else (None, retries, Suc n)
            | RequestException \<Rightarrow> (None, retries, Suc n))
      else (None, retries, n))"
  by pat_completeness auto
termination
  by (relation "measure (\<lambda>(max_retries, srv, retries, n). nat (max_retries - retries))") auto

declare fetch_with_retries.simps [simp del]

text \<open>An outcome on which the loop gives up: an HTTP error status other than 429, or a
  transport failure.\<close>

definition aborting :: "http_outcome \<Rightarrow> bool" where
  "aborting r =
     (case r of Response body \<Rightarrow> False | HTTPError status_code \<Rightarrow> status_code \<noteq> 429
      | RequestException \<Rightarrow> True)"

definition always :: "http_outcome \<Rightarrow> nat \<Rightarrow> http_outcome" where
  "always r n = r"

definition throttled_then_timeout :: "nat \<Rightarrow> http_outcome" where
  "throttled_then_timeout n = (if n = 0 then HTTPError 429 else RequestException)"

definition throttled_then_not_found :: "nat \<Rightarrow> http_outcome" where
  "throttled_then_not_found n = (if n < 3 then HTTPError 429 else HTTPError 404)"

section \<open>Following the next-page link (scraper.py 620-683)\<close>

text \<open>
  The JSON of one search response: \<open>results\<close>, \<open>total\<close> when present, and
  \<open>_links.next.href\<close>, where \<open>None\<close> is a missing \<open>_links\<close>, \<open>Some None\<close> a missing \<open>next\<close>
  and \<open>Some (Some h)\<close> a \<open>next\<close> whose \<open>href\<close> is \<open>h\<close> (missing: \<open>None\<close>).
\<close>

record search_page =
  page_results :: "job_item list"
  page_total :: "int option"
  page_links :: "string option option option"

datatype search_outcome =
  Page search_page | SearchHTTPError | SearchRequestException | SearchJSONDecodeError

text \<open>\<open>data.get("_links", {}).get("next", {})\<close>, then \<open>info.get("href") if info else None\<close>.\<close>

definition next_href :: "search_page \<Rightarrow> string option" where
  "next_href data = (case page_links data of Some (Some (Some h)) \<Rightarrow> Some h | _ \<Rightarrow> None)"

text \<open>The test \<open>while current_search_url\<close>: neither \<open>None\<close> nor the empty string.\<close>

definition truthy :: "string option \<Rightarrow> bool" where
  "truthy u = (case u of None \<Rightarrow> False | Some s \<Rightarrow> s \<noteq> [])"

record search_state =
  all_job_items :: "job_item list"
  total_api_calls_for_search :: nat
  requested :: "string list"
  logged_totals :: "int list"

text \<open>
  The loop of \<open>_fetch_careers_future_jobs\<close>. \<open>srv n url\<close> is the outcome of the \<open>n\<close>-th POST
  (counted from 1, as \<open>total_api_calls_for_search\<close>) to \<open>url\<close>. \<open>request_sent\<close> is the
  head of the loop body, up to the POST; \<open>page_received\<close> is what the body does with a parsed
  page: extend the items, and log \<open>total\<close> if the page has one and this is call number 1.
  The loop runs as long as the server supplies links, so it takes fuel: \<open>None\<close> is a loop
  still running when the fuel is spent. An exception leaves the loop with the items
  collected so far.
\<close>

definition request_sent :: "string \<Rightarrow> search_state \<Rightarrow> search_state" where
  "request_sent url st =
     st\<lparr>total_api_calls_for_search := total_api_calls_for_search st + 1,
        requested := requested st @ [url]\<rparr>"

definition page_received :: "search_page \<Rightarrow> search_state \<Rightarrow> search_state" where
  "page_received data st =
     st\<lparr>all_job_items := all_job_items st @ page_results data,
        logged_totals := logged_totals st @
          (case page_total data of
             Some reported \<Rightarrow> if total_api_calls_for_search st = 1 then [reported] else []
           | None \<Rightarrow> [])\<rparr>"

fun search_loop ::
  "nat \<Rightarrow> (nat \<Rightarrow> string \<Rightarrow> search_outcome) \<Rightarrow> string option \<Rightarrow> search_state \<Rightarrow>
   search_state option" where
  "search_loop 0 srv current_search_url st =
     (if \<not> truthy current_search_url then Some st else None)"
| "search_loop (Suc fuel) srv current_search_url st =
     (if \<not> truthy current_search_url then Some st
      else
        (let url = the current_search_url;
             st1 = request_sent url st
         in case srv (total_api_calls_for_search st1) url of
              Page data \<Rightarrow> search_loop fuel srv (next_href data) (page_received data st1)
            | SearchHTTPError \<Rightarrow> Some st1
            | SearchRequestException \<Rightarrow> Some st1
            | SearchJSONDecodeError \<Rightarrow> Some st1))"

definition initial_search_state :: search_state where
  "initial_search_state =
     \<lparr>all_job_items = [], total_api_calls_for_search = 0, requested = [], logged_totals = []\<rparr>"

definition first_search_url :: string where
  "first_search_url = ''https://api.mycareersfuture.gov.sg/v2/search?limit=100&page=0''"

definition search_careers_future ::
  "nat \<Rightarrow> (nat \<Rightarrow> string \<Rightarrow> search_outcome) \<Rightarrow> search_state option" where
  "search_careers_future fuel srv = search_loop fuel srv (Some first_search_url) initial_search_state"

text \<open>
  The next-page link that the server's answer to a request supplies, read off the answer
  itself: the \<open>href\<close> of \<open>_links.next\<close> of a page, when it is there and not empty.
\<close>

definition supplied_link :: "search_outcome \<Rightarrow> string option" where
  "supplied_link r =
     (case r of
        Page data \<Rightarrow>
          (case page_links data of
             Some (Some (Some link)) \<Rightarrow> if link = [] then None else Some link
           | _ \<Rightarrow> None)
      | _ \<Rightarrow> None)"

text \<open>
  \<open>link_chain srv n urls\<close>: \<open>urls\<close> are requests number \<open>n + 1\<close>, \<open>n + 2\<close>, ... of a run in
  which every request but the last was answered with a next-page link, namely the next
  request's URL, and the last was answered without one.
\<close>

fun link_chain :: "(nat \<Rightarrow> string \<Rightarrow> search_outcome) \<Rightarrow> nat \<Rightarrow> string list \<Rightarrow> bool" where
  "link_chain srv n [] = True"
| "link_chain srv n [u] = (supplied_link (srv (Suc n) u) = None)"
| "link_chain srv n (u # v # urls) =
     (supplied_link (srv (Suc n) u) = Some v \<and> link_chain srv (Suc n) (v # urls))"

text \<open>
  \<open>ends_within b srv n url\<close>: following the supplied links from request number \<open>n + 1\<close>
  to \<open>url\<close>, an answer without a next-page link comes within \<open>b\<close> requests.
\<close>

fun ends_within :: "nat \<Rightarrow> (nat \<Rightarrow> string \<Rightarrow> search_outcome) \<Rightarrow> nat \<Rightarrow> string \<Rightarrow> bool" where
  "ends_within 0 srv n url = False"
| "ends_within (Suc b) srv n url =
     (case supplied_link (srv (Suc n) url) of
        None \<Rightarrow> True
      | Some link \<Rightarrow> ends_within b srv (Suc n) link)"

text \<open>The same server reporting other totals.\<close>

definition with_totals ::
  "(search_page \<Rightarrow> int option) \<Rightarrow> (nat \<Rightarrow> string \<Rightarrow> search_outcome) \<Rightarrow> nat \<Rightarrow> string \<Rightarrow> search_outcome" where
  "with_totals f srv n url =
     (case srv n url of Page data \<Rightarrow> Page (data\<lparr>page_total := f data\<rparr>) | r \<Rightarrow> r)"

definition without_log :: "search_state \<Rightarrow> search_state" where
  "without_log st = st\<lparr>logged_totals := []\<rparr>"

definition first_total :: "search_outcome \<Rightarrow> int list" where
  "first_total r = (case r of Page data \<Rightarrow> (case page_total data of Some t \<Rightarrow> [t] | None \<Rightarrow> [])
                   | _ \<Rightarrow> [])"

text \<open>A server with two pages, reporting a total of 7 on each.\<close>

definition two_pages :: "nat \<Rightarrow> string \<Rightarrow> search_outcome" where
  "two_pages n url =
     (if url = first_search_url
      then Page \<lparr>page_results = [nameless], page_total = Some 7,
                 page_links = Some (Some (Some ''page1''))\<rparr>
      else Page \<lparr>page_results = [reposting], page_total = Some 7, page_links = Some None\<rparr>)"

definition two_pages_result :: search_state where
  "two_pages_result =
     \<lparr>all_job_items = [nameless, reposting], total_api_calls_for_search = 2,
      requested = [first_search_url, ''page1''], logged_totals = [7]\<rparr>"

section \<open>Facts about the persisted state\<close>

lemma parse_reset_date_total: "\<exists>d. parse_reset_date r = Inr d"
  by (cases r)
    (auto simp: parse_reset_date_def split: option.splits iso_string.splits sum.splits
      elim: fromisoformat.elims)

lemma fromisoformat_all_str: "fromisoformat_all (map (PyStr \<circ> IsoDatetime) ts) = Inr ts"
  by (induction ts) auto

lemma fromisoformat_all_datetime:
  "fromisoformat_all (map PyDatetime ts) = (if ts = [] then Inr [] else Inl TypeError)"
  by (cases ts) auto

lemma load_save:
  "writable w (QUOTA_STATE_FILE k) \<Longrightarrow>
   load_quota_state k (save_quota_state k c d ts w) =
     \<lparr>daily_request_count = c, daily_reset_date = map_option IsoDate d, request_timestamps = ts\<rparr>"
  by (simp add: load_quota_state_def save_quota_state_def fromisoformat_all_str)

lemma save_read_only:
  "\<not> writable w (QUOTA_STATE_FILE k) \<Longrightarrow> save_quota_state k c d ts w = w"
  by (simp add: save_quota_state_def)

lemma parse_IsoDate: "parse_reset_date (map_option IsoDate d) = Inr d"
  by (cases d) (simp_all add: parse_reset_date_def date_of_def midnight_def seconds_def)

lemma sleep_frame: "files (sleep d w) = files w" "writable (sleep d w) = writable w"
  by (simp_all add: sleep_def)

lemma rpm_wait_frame: "files (rpm_wait ts w) = files w" "writable (rpm_wait ts w) = writable w"
  by (simp_all add: rpm_wait_def Let_def sleep_frame)

lemma spacing_wait_frame:
  "files (spacing_wait ts w) = files w" "writable (spacing_wait ts w) = writable w"
  by (simp_all add: spacing_wait_def Let_def sleep_frame)

lemma waits_frame:
  "files (spacing_wait ts (rpm_wait ts w)) = files w"
  "writable (spacing_wait ts (rpm_wait ts w)) = writable w"
  by (simp_all add: spacing_wait_frame rpm_wait_frame)

lemma load_files_cong: "files w' = files w \<Longrightarrow> load_quota_state k w' = load_quota_state k w"
  by (simp add: load_quota_state_def)

lemma persisted_count_save:
  "persisted_count k (save_quota_state k c d ts w) =
     (if writable w (QUOTA_STATE_FILE k) then c else persisted_count k w)"
  by (simp add: persisted_count_def load_save save_read_only)

lemma persisted_count_cong: "files w' = files w \<Longrightarrow> persisted_count k w' = persisted_count k w"
  by (simp add: persisted_count_def load_quota_state_def)

text \<open>The two ways out of \<open>check_and_enforce_quota\<close>.\<close>

lemma check_cases:
  obtains (reject) c where "count_after_reset k w = Some c" "MAX_REQUESTS_PER_DAY k \<le> c"
      "check_and_enforce_quota k w = (Inr False, w)"
  | (admit) c d ts w2 where "count_after_reset k w = Some c" "c < MAX_REQUESTS_PER_DAY k"
      "files w2 = files w" "writable w2 = writable w"
      "check_and_enforce_quota k w =
         (Inr True, save_quota_state k (c + 1) (Some d) (ts @ [clock w2]) w2)"
proof -
  obtain d where d: "parse_reset_date (daily_reset_date (load_quota_state k w)) = Inr d"
    using parse_reset_date_total by blast
  obtain c d' ts where n: "new_day_reset (clock w) (daily_request_count (load_quota_state k w)) d
      (request_timestamps (load_quota_state k w)) = (c, d', ts)"
    by (metis prod_cases3)
  have car: "count_after_reset k w = Some c"
    by (simp add: count_after_reset_def Let_def d n)
  show thesis
  proof (cases "MAX_REQUESTS_PER_DAY k \<le> c")
    case True
    then have "check_and_enforce_quota k w = (Inr False, w)"
      by (simp add: check_and_enforce_quota_def Let_def d n)
    then show thesis using reject car True by blast
  next
    case False
    let ?ts = "filter (\<lambda>t. t > clock w - seconds 60) ts"
    let ?w2 = "spacing_wait ?ts (rpm_wait ?ts w)"
    have "check_and_enforce_quota k w =
        (Inr True, save_quota_state k (c + 1) (Some d') (?ts @ [clock ?w2]) ?w2)"
      using False by (simp add: check_and_enforce_quota_def Let_def d n)
    then show thesis using admit[of c ?w2 d' ?ts] car False waits_frame by auto
  qed
qed

text \<open>The two ways out of the failure path: the conversion of the reloaded timestamps
  raises as soon as there is one, and only an empty list reaches \<open>save_quota_state\<close>.\<close>

lemma release_cases:
  obtains (raised) "request_timestamps (load_quota_state k w) \<noteq> []"
     "release_failed_request k w = (Inl TypeError, w)"
  | (saved) d where "request_timestamps (load_quota_state k w) = []"
     "parse_reset_date (daily_reset_date (load_quota_state k w)) = Inr d"
     "release_failed_request k w =
        (Inr (), save_quota_state k (max 0 (daily_request_count (load_quota_state k w) - 1)) d [] w)"
proof -
  obtain d where d: "parse_reset_date (daily_reset_date (load_quota_state k w)) = Inr d"
    using parse_reset_date_total by blast
  show thesis
  proof (cases "request_timestamps (load_quota_state k w) = []")
    case True
    then show ?thesis using saved d
      by (simp add: release_failed_request_def Let_def)
  next
    case False
    then show ?thesis using raised d
      by (simp add: release_failed_request_def Let_def fromisoformat_all_datetime)
  qed
qed

section \<open>The daily cap\<close>

lemma check_keeps_cap:
  assumes "persisted_count k w \<le> MAX_REQUESTS_PER_DAY k"
  shows "persisted_count k (snd (check_and_enforce_quota k w)) \<le> MAX_REQUESTS_PER_DAY k"
proof (cases rule: check_cases[of k w])
  case (reject c)
  then show ?thesis using assms by simp
next
  case (admit c d ts w2)
  then show ?thesis using assms persisted_count_cong[of w2 w k]
    by (simp add: persisted_count_save)
qed

lemma release_keeps_cap:
  assumes "persisted_count k w \<le> MAX_REQUESTS_PER_DAY k" "0 \<le> MAX_REQUESTS_PER_DAY k"
  shows "persisted_count k (snd (release_failed_request k w)) \<le> MAX_REQUESTS_PER_DAY k"
proof (cases rule: release_cases[of k w])
  case raised
  then show ?thesis using assms by simp
next
  case (saved d)
  have "max 0 (persisted_count k w - 1) \<le> MAX_REQUESTS_PER_DAY k"
    using assms by simp
  then show ?thesis using saved assms
    by (simp add: persisted_count_save) (simp add: persisted_count_def)
qed

lemma run_keeps_cap:
  assumes "0 \<le> MAX_REQUESTS_PER_DAY k"
  shows "persisted_count k w \<le> MAX_REQUESTS_PER_DAY k \<Longrightarrow>
         persisted_count k (run k es w) \<le> MAX_REQUESTS_PER_DAY k"
proof (induction es arbitrary: w)
  case Nil
  then show ?case by simp
next
  case (Cons e es)
  show ?case
  proof (cases e)
    case Admit
    then show ?thesis using Cons check_keeps_cap by simp
  next
    case Release
    then show ?thesis using Cons release_keeps_cap assms by simp
  next
    case (Elapse d)
    have "persisted_count k (w\<lparr>clock := clock w + d\<rparr>) = persisted_count k w"
      by (rule persisted_count_cong) simp
    then show ?thesis using Elapse Cons by simp
  qed
qed

lemma first_run_count: "persisted_count scraper first_run = 0"
  by (simp add: persisted_count_def load_quota_state_def first_run_def fresh_state_def)

lemma used_today_count_after_reset:
  "QUOTA_STATE_FILE k = ''quota_state.json'' \<Longrightarrow> count_after_reset k (used_today n) = Some n"
  by (simp add: count_after_reset_def load_quota_state_def used_today_def parse_reset_date_def
      new_day_reset_def date_of_def midnight_def seconds_def ten_o_clock_def Let_def)

text \<open>
  C1. Over any history of admission calls of one module (with failure-path releases and
  time passing in between), a persisted daily count that is at most
  \<open>MAX_REQUESTS_PER_DAY\<close> stays at most \<open>MAX_REQUESTS_PER_DAY\<close>; a missing or unreadable
  state file counts as zero. And whenever the count after the new-day reset step is at or
  above the cap, \<open>check_and_enforce_quota\<close> returns \<open>False\<close> and leaves the whole world
  as it was: no sleep, no clock change, no write.
\<close>

theorem daily_cap_never_exceeded:
  "(0 \<le> MAX_REQUESTS_PER_DAY k \<and> persisted_count k w \<le> MAX_REQUESTS_PER_DAY k \<longrightarrow>
      persisted_count k (run k es w) \<le> MAX_REQUESTS_PER_DAY k) \<and>
   (count_after_reset k w = Some c \<and> MAX_REQUESTS_PER_DAY k \<le> c \<longrightarrow>
      check_and_enforce_quota k w = (Inr False, w))"
proof (intro conjI impI)
  assume "0 \<le> MAX_REQUESTS_PER_DAY k \<and> persisted_count k w \<le> MAX_REQUESTS_PER_DAY k"
  then show "persisted_count k (run k es w) \<le> MAX_REQUESTS_PER_DAY k"
    using run_keeps_cap by blast
next
  assume a: "count_after_reset k w = Some c \<and> MAX_REQUESTS_PER_DAY k \<le> c"
  show "check_and_enforce_quota k w = (Inr False, w)"
  proof (cases rule: check_cases[of k w])
    case (reject c)
    then show ?thesis by simp
  next
    case (admit c' d ts w2)
    then show ?thesis using a by simp
  qed
qed

theorem daily_cap_never_exceeded_witness:
  "0 \<le> MAX_REQUESTS_PER_DAY scraper \<and>
   persisted_count scraper first_run \<le> MAX_REQUESTS_PER_DAY scraper \<and>
   persisted_count scraper (run scraper [Admit, Elapse (seconds 20), Admit, Release] first_run)
     \<le> MAX_REQUESTS_PER_DAY scraper \<and>
   count_after_reset scraper (used_today 20) = Some 20 \<and>
   MAX_REQUESTS_PER_DAY scraper \<le> 20 \<and>
   check_and_enforce_quota scraper (used_today 20) = (Inr False, used_today 20)"
proof -
  have a: "0 \<le> MAX_REQUESTS_PER_DAY scraper" "MAX_REQUESTS_PER_DAY scraper \<le> 20"
    by (simp_all add: scraper_def)
  have b: "persisted_count scraper first_run \<le> MAX_REQUESTS_PER_DAY scraper"
    by (simp only: first_run_count) (simp add: scraper_def)
  have c: "count_after_reset scraper (used_today 20) = Some 20"
    by (rule used_today_count_after_reset) (simp add: scraper_def)
  show ?thesis
    using a b c
      daily_cap_never_exceeded[of scraper first_run "[Admit, Elapse (seconds 20), Admit, Release]" 20]
      daily_cap_never_exceeded[of scraper "used_today 20" "[]" 20]
    by blast
qed

section \<open>The failure path after an admitted call\<close>

text \<open>After an admitted call whose state was written, the reloaded state holds at least the
  timestamp of that call, so the failure path raises before it saves anything.\<close>

lemma release_after_admission:
  assumes "writable w (QUOTA_STATE_FILE k)" "check_and_enforce_quota k w = (Inr True, w1)"
  shows "release_failed_request k w1 = (Inl TypeError, w1)"
proof (cases rule: check_cases[of k w])
  case (reject c)
  then show ?thesis using assms by simp
next
  case (admit c d ts w2)
  then have "request_timestamps (load_quota_state k w1) = ts @ [clock w2]"
    using assms by (auto simp: load_save)
  then have ne: "request_timestamps (load_quota_state k w1) \<noteq> []" by simp
  show ?thesis
    by (cases rule: release_cases[of k w1]) (use ne in simp_all)
qed

lemma release_completed_count:
  assumes "release_failed_request k w = (Inr (), w')" "writable w (QUOTA_STATE_FILE k)"
  shows "persisted_count k w' = max 0 (persisted_count k w - 1)"
proof (cases rule: release_cases[of k w])
  case raised
  then show ?thesis using assms by simp
next
  case (saved d)
  then show ?thesis using assms
    by (simp add: persisted_count_save) (simp add: persisted_count_def)
qed

text \<open>
  C2. The claim: after an admitted call has incremented the daily count, one run of the
  failure path brings the persisted count back to its value before the admission. On the
  first run of the scraper (no state file yet) the count is 0 before the admission and 1
  after it; the failure path then raises \<open>TypeError\<close>, and the persisted count is still 1.
\<close>

theorem release_after_admission_keeps_count:
  "(case check_and_enforce_quota scraper first_run of
      (admitted, w1) \<Rightarrow>
        (case release_failed_request scraper w1 of
           (released, w2) \<Rightarrow>
             (persisted_count scraper first_run, admitted, persisted_count scraper w1,
              released, persisted_count scraper w2))) =
   (0, Inr True, 1, Inl TypeError, 1)"
  by (simp add: check_and_enforce_quota_def release_failed_request_def load_quota_state_def
      save_quota_state_def first_run_def fresh_state_def parse_reset_date_def new_day_reset_def
      rpm_wait_def spacing_wait_def scraper_def persisted_count_def Let_def
      MAX_REQUESTS_PER_MINUTE_def)

text \<open>
  C8. The failure path leaves the persisted request timestamps and the persisted reset
  date as they were, whether it saves or raises, in either module.
\<close>

theorem release_keeps_timestamps_and_date:
  "persisted_timestamps k (snd (release_failed_request k w)) = persisted_timestamps k w \<and>
   persisted_reset_date k (snd (release_failed_request k w)) = persisted_reset_date k w"
proof (cases rule: release_cases[of k w])
  case raised
  then show ?thesis by simp
next
  case (saved d)
  show ?thesis
  proof (cases "writable w (QUOTA_STATE_FILE k)")
    case True
    then show ?thesis using saved
      by (simp add: persisted_timestamps_def persisted_reset_date_def load_save parse_IsoDate)
  next
    case False
    then show ?thesis using saved by (simp add: save_read_only)
  qed
qed

section \<open>Round trip through the state file\<close>

text \<open>
  C7, as stated, fails where the state file cannot be written: \<open>save_quota_state\<close> logs the
  exception and returns, and \<open>load_quota_state\<close> then finds what was there before. With no
  file there, saving a count of 5 and loading gives a count of 0.
\<close>

theorem save_then_load_read_only:
  "daily_request_count
     (load_quota_state scraper
        (save_quota_state scraper 5 (Some 20000) [ten_o_clock] read_only_run)) = 0"
  by (simp add: load_quota_state_def save_quota_state_def read_only_run_def fresh_state_def)

text \<open>
  C7, amended. When the state file can be written, saving and then loading gives the same
  daily count, a reset date string that parses to the same date, and the same sequence of
  timestamps.
\<close>

theorem save_then_load:
  "writable w (QUOTA_STATE_FILE k) \<Longrightarrow>
   daily_request_count (load_quota_state k (save_quota_state k c d ts w)) = c \<and>
   parse_reset_date (daily_reset_date (load_quota_state k (save_quota_state k c d ts w))) = Inr d \<and>
   request_timestamps (load_quota_state k (save_quota_state k c d ts w)) = ts"
  by (simp add: load_save parse_IsoDate)

theorem save_then_load_witness:
  "writable first_run (QUOTA_STATE_FILE scraper) \<and>
   daily_request_count
     (load_quota_state scraper
        (save_quota_state scraper 5 (Some 20000) [ten_o_clock] first_run)) = 5 \<and>
   parse_reset_date
     (daily_reset_date
        (load_quota_state scraper
           (save_quota_state scraper 5 (Some 20000) [ten_o_clock] first_run))) =
     Inr (Some 20000) \<and>
   request_timestamps
     (load_quota_state scraper
        (save_quota_state scraper 5 (Some 20000) [ten_o_clock] first_run)) = [ten_o_clock]"
proof -
  have w: "writable first_run (QUOTA_STATE_FILE scraper)" by (simp add: first_run_def)
  show ?thesis using w save_then_load[OF w, of 5 "Some 20000" "[ten_o_clock]"] by simp
qed

section \<open>The enrichment gate\<close>

lemma admits_iff:
  "fst (check_and_enforce_quota k w) = Inr True \<longleftrightarrow>
   (\<exists>c. count_after_reset k w = Some c \<and> c < MAX_REQUESTS_PER_DAY k)"
  by (cases rule: check_cases[of k w]) auto

lemma rejects_iff:
  "fst (check_and_enforce_quota k w) = Inr False \<longleftrightarrow>
   (\<exists>c. count_after_reset k w = Some c \<and> MAX_REQUESTS_PER_DAY k \<le> c)"
  by (cases rule: check_cases[of k w]) auto

text \<open>
  C6. On the empty string \<open>convert_plain_text_to_markdown_with_ai\<close> returns the empty
  string and leaves the world as it was, whatever the quota state: no quota check has
  written or slept, and no external call was made. On any input, when the quota check
  rejects, it returns the input and leaves the world as it was.
\<close>

theorem enrichment_gate_unchanged:
  "convert_plain_text_to_markdown_with_ai gen [] w = (Inr [], w) \<and>
   (fst (check_and_enforce_quota scraper w) = Inr False \<longrightarrow>
      convert_plain_text_to_markdown_with_ai gen raw w = (Inr raw, w))"
proof (intro conjI impI)
  show "convert_plain_text_to_markdown_with_ai gen [] w = (Inr [], w)"
    by (simp add: convert_plain_text_to_markdown_with_ai_def)
next
  assume r: "fst (check_and_enforce_quota scraper w) = Inr False"
  show "convert_plain_text_to_markdown_with_ai gen raw w = (Inr raw, w)"
  proof (cases rule: check_cases[of scraper w])
    case (reject c)
    then show ?thesis by (simp add: convert_plain_text_to_markdown_with_ai_def)
  next
    case (admit c d ts w2)
    then show ?thesis using r by simp
  qed
qed

theorem enrichment_gate_unchanged_witness:
  "convert_plain_text_to_markdown_with_ai failing [] first_run = (Inr [], first_run) \<and>
   fst (check_and_enforce_quota scraper (used_today 20)) = Inr False \<and>
   convert_plain_text_to_markdown_with_ai failing (ascii ''plain text'') (used_today 20) =
     (Inr (ascii ''plain text''), used_today 20)"
proof -
  have r: "fst (check_and_enforce_quota scraper (used_today 20)) = Inr False"
    by (simp add: rejects_iff used_today_count_after_reset scraper_def)
  show ?thesis
    using r enrichment_gate_unchanged[of failing first_run "ascii ''plain text''"]
      enrichment_gate_unchanged[of failing "used_today 20" "ascii ''plain text''"]
    by blast
qed

section \<open>A failing text-generation call\<close>

text \<open>
  C4, as stated, fails for \<open>parse_resume_with_ai\<close>, whose failure path ends with \<open>raise\<close>:
  with a state file that cannot be written (so that the release block completes), the
  exception of the external call reaches the caller.
\<close>

theorem resume_parser_propagates_failure:
  "fst (parse_resume_with_ai failing (ascii ''cv'') read_only_run) = Inl ApiError"
  by (simp add: parse_resume_with_ai_def check_and_enforce_quota_def release_failed_request_def
      load_quota_state_def save_quota_state_def read_only_run_def fresh_state_def
      parse_reset_date_def new_day_reset_def rpm_wait_def spacing_wait_def resume_parser_def
      failing_def Let_def MAX_REQUESTS_PER_MINUTE_def)

text \<open>
  C4, amended. When the external call fails after admission, both callers run the release
  block. Where the block completes, \<open>convert_plain_text_to_markdown_with_ai\<close> returns the
  raw input text, and \<open>parse_resume_with_ai\<close> raises the exception of the external call to
  its caller; \<open>parse_resume_with_ai\<close> never returns a value after a failed call. A release
  block that completes on a writable state file has decremented the persisted daily count,
  floored at zero.
\<close>

theorem generation_failure_outcomes:
  assumes "gen raw = Inl e"
  shows
  "(raw \<noteq> [] \<and> check_and_enforce_quota scraper w = (Inr True, wa) \<and>
    release_failed_request scraper (wa\<lparr>gen_calls := gen_calls wa @ [raw]\<rparr>) = (Inr (), wr) \<longrightarrow>
      convert_plain_text_to_markdown_with_ai gen raw w = (Inr raw, wr)) \<and>
   (check_and_enforce_quota resume_parser w = (Inr True, wa) \<and>
    release_failed_request resume_parser (wa\<lparr>gen_calls := gen_calls wa @ [raw]\<rparr>) = (Inr (), wr) \<longrightarrow>
      parse_resume_with_ai gen raw w = (Inl e, wr)) \<and>
   (check_and_enforce_quota resume_parser w = (Inr True, wa) \<longrightarrow>
      (\<exists>e'. fst (parse_resume_with_ai gen raw w) = Inl e')) \<and>
   (release_failed_request k v = (Inr (), v') \<and> writable v (QUOTA_STATE_FILE k) \<longrightarrow>
      persisted_count k v' = max 0 (persisted_count k v - 1))"
proof (intro conjI impI)
  assume "raw \<noteq> [] \<and> check_and_enforce_quota scraper w = (Inr True, wa) \<and>
    release_failed_request scraper (wa\<lparr>gen_calls := gen_calls wa @ [raw]\<rparr>) = (Inr (), wr)"
  then show "convert_plain_text_to_markdown_with_ai gen raw w = (Inr raw, wr)"
    using assms by (simp add: convert_plain_text_to_markdown_with_ai_def Let_def)
next
  assume "check_and_enforce_quota resume_parser w = (Inr True, wa) \<and>
    release_failed_request resume_parser (wa\<lparr>gen_calls := gen_calls wa @ [raw]\<rparr>) = (Inr (), wr)"
  then show "parse_resume_with_ai gen raw w = (Inl e, wr)"
    using assms by (simp add: parse_resume_with_ai_def Let_def)
next
  assume a: "check_and_enforce_quota resume_parser w = (Inr True, wa)"
  obtain r w' where
    r: "release_failed_request resume_parser (wa\<lparr>gen_calls := gen_calls wa @ [raw]\<rparr>) = (r, w')"
    by (cases "release_failed_request resume_parser (wa\<lparr>gen_calls := gen_calls wa @ [raw]\<rparr>)")
  show "\<exists>e'. fst (parse_resume_with_ai gen raw w) = Inl e'"
    using assms a r by (cases r) (simp_all add: parse_resume_with_ai_def Let_def)
next
  assume "release_failed_request k v = (Inr (), v') \<and> writable v (QUOTA_STATE_FILE k)"
  then show "persisted_count k v' = max 0 (persisted_count k v - 1)"
    using release_completed_count by blast
qed

lemma read_only_check:
  "0 < MAX_REQUESTS_PER_DAY k \<Longrightarrow>
   check_and_enforce_quota k read_only_run = (Inr True, read_only_run)"
  by (simp add: check_and_enforce_quota_def load_quota_state_def save_quota_state_def
      read_only_run_def fresh_state_def parse_reset_date_def new_day_reset_def rpm_wait_def
      spacing_wait_def Let_def MAX_REQUESTS_PER_MINUTE_def)

lemma read_only_release:
  "release_failed_request k (read_only_run\<lparr>gen_calls := cs\<rparr>) =
     (Inr (), read_only_run\<lparr>gen_calls := cs\<rparr>)"
  by (simp add: release_failed_request_def load_quota_state_def save_quota_state_def
      read_only_run_def fresh_state_def parse_reset_date_def Let_def)

lemma no_recent_calls_release:
  "release_failed_request scraper (no_recent_calls 3) = (Inr (), no_recent_calls 2)"
  by (simp add: release_failed_request_def scraper_def load_quota_state_def
      save_quota_state_def no_recent_calls_def fresh_state_def parse_reset_date_def Let_def
      date_of_def midnight_def seconds_def)

theorem generation_failure_outcomes_witness:
  "failing (ascii ''cv'') = Inl ApiError \<and> (ascii ''cv'') \<noteq> [] \<and>
   check_and_enforce_quota scraper read_only_run = (Inr True, read_only_run) \<and>
   release_failed_request scraper
     (read_only_run\<lparr>gen_calls := gen_calls read_only_run @ [ascii ''cv'']\<rparr>) =
     (Inr (), read_only_run\<lparr>gen_calls := [ascii ''cv'']\<rparr>) \<and>
   convert_plain_text_to_markdown_with_ai failing (ascii ''cv'') read_only_run =
     (Inr (ascii ''cv''), read_only_run\<lparr>gen_calls := [ascii ''cv'']\<rparr>) \<and>
   check_and_enforce_quota resume_parser read_only_run = (Inr True, read_only_run) \<and>
   release_failed_request resume_parser
     (read_only_run\<lparr>gen_calls := gen_calls read_only_run @ [ascii ''cv'']\<rparr>) =
     (Inr (), read_only_run\<lparr>gen_calls := [ascii ''cv'']\<rparr>) \<and>
   parse_resume_with_ai failing (ascii ''cv'') read_only_run =
     (Inl ApiError, read_only_run\<lparr>gen_calls := [ascii ''cv'']\<rparr>) \<and>
   (\<exists>e'. fst (parse_resume_with_ai failing (ascii ''cv'') read_only_run) = Inl e') \<and>
   release_failed_request scraper (no_recent_calls 3) = (Inr (), no_recent_calls 2) \<and>
   writable (no_recent_calls 3) (QUOTA_STATE_FILE scraper) \<and>
   persisted_count scraper (no_recent_calls 2) =
     max 0 (persisted_count scraper (no_recent_calls 3) - 1)"
proof -
  have f: "failing (ascii ''cv'') = Inl ApiError" by (simp add: failing_def)
  have g: "gen_calls read_only_run @ [ascii ''cv''] = [ascii ''cv'']" by (simp add: read_only_run_def)
  have c1: "check_and_enforce_quota scraper read_only_run = (Inr True, read_only_run)"
    by (rule read_only_check) (simp add: scraper_def)
  have c2: "check_and_enforce_quota resume_parser read_only_run = (Inr True, read_only_run)"
    by (rule read_only_check) (simp add: resume_parser_def)
  have r1: "release_failed_request scraper
      (read_only_run\<lparr>gen_calls := gen_calls read_only_run @ [ascii ''cv'']\<rparr>) =
     (Inr (), read_only_run\<lparr>gen_calls := [ascii ''cv'']\<rparr>)"
    by (simp only: g read_only_release)
  have r2: "release_failed_request resume_parser
      (read_only_run\<lparr>gen_calls := gen_calls read_only_run @ [ascii ''cv'']\<rparr>) =
     (Inr (), read_only_run\<lparr>gen_calls := [ascii ''cv'']\<rparr>)"
    by (simp only: g read_only_release)
  have wr: "writable (no_recent_calls 3) (QUOTA_STATE_FILE scraper)"
    by (simp add: no_recent_calls_def)
  note t = generation_failure_outcomes[where gen = failing and raw = "ascii ''cv''" and e = ApiError
      and w = read_only_run and wa = read_only_run
      and wr = "read_only_run\<lparr>gen_calls := [ascii ''cv'']\<rparr>"
      and k = scraper and v = "no_recent_calls 3" and v' = "no_recent_calls 2", OF f]
  have n0: "ascii ''cv'' \<noteq> []" by (simp add: ascii_def)
  show ?thesis
    using f n0 c1 c2 r1 r2 wr no_recent_calls_release t by blast
qed

section \<open>The two modules' admission checks\<close>

lemma fromisoformat_all_strs: "\<exists>ts. fromisoformat_all (map PyStr ss) = Inr ts"
proof (induction ss)
  case Nil
  then show ?case by simp
next
  case (Cons s ss)
  then show ?case by (cases s) auto
qed

lemma count_after_reset_today:
  assumes "files w (QUOTA_STATE_FILE k) = Json j"
    "parse_reset_date (j_daily_reset_date j) = Inr (Some (date_of (clock w)))"
  shows "count_after_reset k w = Some (j_daily_request_count j)"
proof -
  obtain ts where "fromisoformat_all (map PyStr (j_request_timestamps j)) = Inr ts"
    using fromisoformat_all_strs by blast
  then show ?thesis using assms
    by (simp add: count_after_reset_def load_quota_state_def new_day_reset_def Let_def)
qed

lemma used_today_rejects_resume:
  "fst (check_and_enforce_quota resume_parser (used_today 19)) = Inr False"
  by (simp add: rejects_iff used_today_count_after_reset resume_parser_def)

lemma used_today_admits_scraper:
  "fst (check_and_enforce_quota scraper (used_today 19)) = Inr True"
  by (simp add: admits_iff used_today_count_after_reset scraper_def)

text \<open>
  C10. The scraper and the resume parser keep their quota state under the same file name,
  with daily caps 20 and 19. On a state file whose reset date is the current date and whose
  daily count is 19, the scraper's \<open>check_and_enforce_quota\<close> admits and the resume parser's
  rejects; so the two functions are not equal.
\<close>

theorem caps_differ:
  "QUOTA_STATE_FILE scraper = QUOTA_STATE_FILE resume_parser \<and>
   MAX_REQUESTS_PER_DAY scraper = 20 \<and> MAX_REQUESTS_PER_DAY resume_parser = 19 \<and>
   (files w (QUOTA_STATE_FILE scraper) = Json j \<and> j_daily_request_count j = 19 \<and>
    parse_reset_date (j_daily_reset_date j) = Inr (Some (date_of (clock w))) \<longrightarrow>
      fst (check_and_enforce_quota scraper w) = Inr True \<and>
      fst (check_and_enforce_quota resume_parser w) = Inr False) \<and>
   check_and_enforce_quota scraper \<noteq> check_and_enforce_quota resume_parser"
proof (intro conjI impI)
  show "QUOTA_STATE_FILE scraper = QUOTA_STATE_FILE resume_parser"
    by (simp add: scraper_def resume_parser_def)
  show "MAX_REQUESTS_PER_DAY scraper = 20" by (simp add: scraper_def)
  show "MAX_REQUESTS_PER_DAY resume_parser = 19" by (simp add: resume_parser_def)
  show "check_and_enforce_quota scraper \<noteq> check_and_enforce_quota resume_parser"
  proof
    assume "check_and_enforce_quota scraper = check_and_enforce_quota resume_parser"
    then have "fst (check_and_enforce_quota scraper (used_today 19)) =
               fst (check_and_enforce_quota resume_parser (used_today 19))"
      by simp
    then show False
      by (simp add: used_today_rejects_resume used_today_admits_scraper)
  qed
next
  assume a: "files w (QUOTA_STATE_FILE scraper) = Json j \<and> j_daily_request_count j = 19 \<and>
    parse_reset_date (j_daily_reset_date j) = Inr (Some (date_of (clock w)))"
  then have f: "files w (QUOTA_STATE_FILE resume_parser) = Json j"
    by (simp add: scraper_def resume_parser_def)
  have "count_after_reset scraper w = Some 19"
    using a count_after_reset_today[of w scraper j] by simp
  then show "fst (check_and_enforce_quota scraper w) = Inr True"
    by (simp add: admits_iff scraper_def)
  have "count_after_reset resume_parser w = Some 19"
    using a f count_after_reset_today[of w resume_parser j] by simp
  then show "fst (check_and_enforce_quota resume_parser w) = Inr False"
    by (simp add: rejects_iff resume_parser_def)
qed

theorem caps_differ_witness:
  "files (used_today 19) (QUOTA_STATE_FILE scraper) =
     Json \<lparr>j_daily_request_count = 19, j_daily_reset_date = Some (IsoDate 20000),
           j_request_timestamps = [IsoDatetime (ten_o_clock - seconds 5)]\<rparr> \<and>
   parse_reset_date (Some (IsoDate 20000)) = Inr (Some (date_of (clock (used_today 19)))) \<and>
   fst (check_and_enforce_quota scraper (used_today 19)) = Inr True \<and>
   fst (check_and_enforce_quota resume_parser (used_today 19)) = Inr False"
proof -
  let ?j = "\<lparr>j_daily_request_count = 19, j_daily_reset_date = Some (IsoDate 20000),
           j_request_timestamps = [IsoDatetime (ten_o_clock - seconds 5)]\<rparr>"
  have a: "files (used_today 19) (QUOTA_STATE_FILE scraper) = Json ?j"
    by (simp add: used_today_def scraper_def)
  have b: "parse_reset_date (Some (IsoDate 20000)) = Inr (Some (date_of (clock (used_today 19))))"
    by (simp add: parse_reset_date_def used_today_def date_of_def midnight_def seconds_def
        ten_o_clock_def)
  show ?thesis
    using a b caps_differ[of "used_today 19" ?j] by simp
qed

section \<open>The deduplication filter\<close>

lemma ascii_eq: "ascii s = ascii t \<longleftrightarrow> s = t"
  by (simp add: ascii_def inj_map_eq_map inj_on_def)

lemma ascii_Nil: "ascii s = [] \<longleftrightarrow> s = []"
  by (simp add: ascii_def)

lemma company_field_name_nonempty: "company_field_name c = Some n \<Longrightarrow> n \<noteq> []"
  by (auto simp: company_field_name_def split: option.splits if_splits)

lemma company_name_nonempty: "get_careers_future_job_company_name item = Some n \<Longrightarrow> n \<noteq> []"
  by (cases item) (auto split: option.splits dest: company_field_name_nonempty)

lemma combo_exists_known_pair: "combo_exists lower pairs item = known_pair lower pairs item"
proof (cases "get_careers_future_job_company_name item")
  case None
  then show ?thesis by (simp add: combo_exists_def known_pair_def normalized_def)
next
  case (Some c)
  then have c: "c \<noteq> []" by (rule company_name_nonempty)
  show ?thesis
  proof (cases "item_title_of item")
    case None
    then show ?thesis using Some
      by (cases item)
        (simp_all add: combo_exists_def known_pair_def normalized_def item_title_of_def)
  next
    case (Some t)
    then show ?thesis using \<open>get_careers_future_job_company_name item = Some c\<close> c
      by (cases item)
        (auto simp: combo_exists_def known_pair_def normalized_def item_title_of_def usable_def)
  qed
qed

lemma new_job_ids_filter:
  "new_job_ids_to_process lower ids pairs items =
     map uuid_text (filter (retained lower ids pairs) items)"
proof (induction items)
  case Nil
  then show ?case by simp
next
  case (Cons item items)
  show ?case
  proof (cases item)
    case NotADict
    then show ?thesis using Cons by (simp add: retained_def is_dict_def)
  next
    case (JobDict u h p t)
    then show ?thesis using Cons combo_exists_known_pair[of lower pairs item]
      by (simp add: retained_def is_dict_def known_id_def uuid_text_def Let_def)
  qed
qed

lemma linkedin_new_ids:
  assumes "set (set_order scraped) = set scraped" "distinct (set_order scraped)"
  shows "set (linkedin_new_job_ids_to_process set_order ids scraped) = set scraped - ids"
    and "distinct (linkedin_new_job_ids_to_process set_order ids scraped)"
  using assms by (auto simp: linkedin_new_job_ids_to_process_def Let_def)

text \<open>
  C3, amended. (a) The guest-source filter yields exactly the scraped identifiers that
  are not in the known-ID set, each once, in the iteration order of the set built at line
  509, and details are requested for these. (b) The board-source loop, run on the search
  results before any detail is fetched, keeps in order the identifiers of exactly the items
  that are dicts, whose non-empty identifier is not known, and whose normalized
  (company, title) pair is not known; details are then requested for exactly these
  identifiers. An item with a known pair is dropped even when its identifier is new, and an
  item that lacks a usable company or title is kept when its identifier is new.
\<close>

theorem dedup_filter:
  "(set (set_order scraped) = set scraped \<and> distinct (set_order scraped) \<longrightarrow>
      set (linkedin_new_job_ids_to_process set_order ids scraped) = set scraped - ids \<and>
      distinct (linkedin_new_job_ids_to_process set_order ids scraped)) \<and>
   snd (process_linkedin_query set_order scraped (ids, pairs) fetch) =
     (if scraped = [] then [] else linkedin_new_job_ids_to_process set_order ids scraped) \<and>
   new_job_ids_to_process lower ids pairs items =
     map uuid_text (filter (retained lower ids pairs) items) \<and>
   (items \<noteq> [] \<longrightarrow>
      process_careers_future_query lower items (Some (ids, pairs)) fetch =
        (detailed_new_jobs fetch (new_job_ids_to_process lower ids pairs items),
         new_job_ids_to_process lower ids pairs items)) \<and>
   (known_id ids item \<longrightarrow> \<not> retained lower ids pairs item) \<and>
   (known_pair lower pairs item \<longrightarrow> \<not> retained lower ids pairs item) \<and>
   (is_dict item \<and> \<not> known_id ids item \<and> lacks_company_or_title lower item \<longrightarrow>
      retained lower ids pairs item)"
proof (intro conjI impI)
  assume a: "set (set_order scraped) = set scraped \<and> distinct (set_order scraped)"
  show "set (linkedin_new_job_ids_to_process set_order ids scraped) = set scraped - ids"
    using a linkedin_new_ids(1) by blast
  show "distinct (linkedin_new_job_ids_to_process set_order ids scraped)"
    using a linkedin_new_ids(2) by blast
next
  show "snd (process_linkedin_query set_order scraped (ids, pairs) fetch) =
     (if scraped = [] then [] else linkedin_new_job_ids_to_process set_order ids scraped)"
    by (simp add: process_linkedin_query_def Let_def)
  show "new_job_ids_to_process lower ids pairs items =
     map uuid_text (filter (retained lower ids pairs) items)"
    by (rule new_job_ids_filter)
  show "\<not> retained lower ids pairs item" if "known_id ids item"
    using that by (simp add: retained_def)
  show "\<not> retained lower ids pairs item" if "known_pair lower pairs item"
    using that by (simp add: retained_def)
  show "retained lower ids pairs item"
    if "is_dict item \<and> \<not> known_id ids item \<and> lacks_company_or_title lower item"
    using that
    by (auto simp: retained_def known_pair_def lacks_company_or_title_def split: option.splits)
next
  assume "items \<noteq> []"
  then show "process_careers_future_query lower items (Some (ids, pairs)) fetch =
        (detailed_new_jobs fetch (new_job_ids_to_process lower ids pairs items),
         new_job_ids_to_process lower ids pairs items)"
    by (simp add: process_careers_future_query_def Let_def)
qed

lemma strip_examples:
  "strip (ascii ''Acme '') = ascii ''Acme''" "strip (ascii '' Engineer'') = ascii ''Engineer''"
  "strip (ascii ''Engineer'') = ascii ''Engineer''" "strip (ascii ''text'') = ascii ''text''"
  "strip (ascii ''Initech'') = ascii ''Initech''" "strip (ascii ''Clerk'') = ascii ''Clerk''"
  by (simp_all add: strip_def ascii_def isspace_def)

lemma lower_examples:
  "ascii_lower (ascii ''Acme'') = ascii ''acme''"
  "ascii_lower (ascii ''Engineer'') = ascii ''engineer''"
  "ascii_lower (ascii ''Initech'') = ascii ''initech''"
  "ascii_lower (ascii ''Clerk'') = ascii ''clerk''"
  by (simp_all add: ascii_lower_def ascii_def)

text \<open>
  C3, as stated, has the guest-source filter preserve the order of the candidates and
  places the pair check after the detail fetch. With known identifiers \<open>A\<close>, \<open>B\<close> and
  scraped identifiers \<open>A\<close>, \<open>C\<close>, \<open>D\<close>, a set that iterates in the order \<open>D\<close>, \<open>C\<close>, \<open>A\<close>
  gives the output \<open>D\<close>, \<open>C\<close>. And a re-posting \<open>X\<close> whose listing carries a known pair is
  dropped with no detail requested for it (the list of requested identifiers is empty),
  although the detail record that would have been fetched carries another company and
  title; with no known pair the same item is fetched and handed on.
\<close>

theorem set_order_and_pair_check_timing:
  "set (rev scraped_ACD) = set scraped_ACD \<and> distinct (rev scraped_ACD) \<and>
   linkedin_new_job_ids_to_process rev known_ids scraped_ACD = [ascii ''D'', ascii ''C''] \<and>
   process_careers_future_query ascii_lower [reposting] (Some ({}, known_pairs))
     reposting_details = ([], []) \<and>
   process_careers_future_query ascii_lower [reposting] (Some ({}, {})) reposting_details =
     ([the (reposting_details (ascii ''X''))], [ascii ''X''])"
proof (intro conjI)
  show "set (rev scraped_ACD) = set scraped_ACD" by (rule set_rev)
  show "distinct (rev scraped_ACD)"
    by (simp add: scraped_ACD_def ascii_eq)
  show "linkedin_new_job_ids_to_process rev known_ids scraped_ACD = [ascii ''D'', ascii ''C'']"
    by (simp add: linkedin_new_job_ids_to_process_def scraped_ACD_def known_ids_def ascii_eq)
  show "process_careers_future_query ascii_lower [reposting] (Some ({}, known_pairs))
     reposting_details = ([], [])"
    by (simp add: process_careers_future_query_def reposting_def combo_exists_def
        normalized_def company_field_name_def str_of_uuid_def strip_examples lower_examples
        known_pairs_def ascii_Nil)
  show "process_careers_future_query ascii_lower [reposting] (Some ({}, {})) reposting_details =
     ([the (reposting_details (ascii ''X''))], [ascii ''X''])"
    by (simp add: process_careers_future_query_def reposting_def reposting_details_def
        combo_exists_def normalized_def company_field_name_def str_of_uuid_def
        has_description_and_id_def strip_examples lower_examples ascii_Nil)
qed

lemma example_items:
  "known_id known_ids already_stored"
  "known_pair ascii_lower known_pairs reposting"
  "is_dict nameless" "\<not> known_id known_ids nameless"
  "lacks_company_or_title ascii_lower nameless"
  by (simp_all add: known_id_def known_pair_def is_dict_def lacks_company_or_title_def
      already_stored_def reposting_def nameless_def str_of_uuid_def company_field_name_def
      item_title_of_def usable_def strip_examples lower_examples known_ids_def known_pairs_def
      ascii_eq ascii_Nil)

lemma example_new_ids:
  "new_job_ids_to_process ascii_lower known_ids known_pairs
     [already_stored, reposting, nameless] = [ascii ''Y'']"
  by (simp add: already_stored_def reposting_def nameless_def str_of_uuid_def
      combo_exists_def normalized_def company_field_name_def strip_examples lower_examples
      known_ids_def known_pairs_def ascii_eq ascii_Nil)

lemma example_linkedin:
  "linkedin_new_job_ids_to_process rev known_ids scraped_ACD = [ascii ''D'', ascii ''C'']"
  "set (rev scraped_ACD) = set scraped_ACD" "distinct (rev scraped_ACD)"
  "scraped_ACD \<noteq> []" "set scraped_ACD - known_ids = {ascii ''C'', ascii ''D''}"
  by (auto simp: linkedin_new_job_ids_to_process_def scraped_ACD_def known_ids_def ascii_eq
      ascii_Nil)

theorem dedup_filter_witness:
  "set (rev scraped_ACD) = set scraped_ACD \<and> distinct (rev scraped_ACD) \<and>
   set (linkedin_new_job_ids_to_process rev known_ids scraped_ACD) = {ascii ''C'', ascii ''D''} \<and>
   distinct (linkedin_new_job_ids_to_process rev known_ids scraped_ACD) \<and>
   snd (process_linkedin_query rev scraped_ACD (known_ids, known_pairs) reposting_details) =
     [ascii ''D'', ascii ''C''] \<and>
   new_job_ids_to_process ascii_lower known_ids known_pairs
     [already_stored, reposting, nameless] = [ascii ''Y''] \<and>
   [already_stored, reposting, nameless] \<noteq> [] \<and>
   process_careers_future_query ascii_lower [already_stored, reposting, nameless]
     (Some (known_ids, known_pairs)) reposting_details =
     ([the (reposting_details (ascii ''Y''))], [ascii ''Y'']) \<and>
   known_id known_ids already_stored \<and>
   \<not> retained ascii_lower known_ids known_pairs already_stored \<and>
   known_pair ascii_lower known_pairs reposting \<and>
   \<not> retained ascii_lower known_ids known_pairs reposting \<and>
   is_dict nameless \<and> \<not> known_id known_ids nameless \<and>
   lacks_company_or_title ascii_lower nameless \<and>
   retained ascii_lower known_ids known_pairs nameless"
proof -
  let ?items = "[already_stored, reposting, nameless]"
  have d: "detailed_new_jobs reposting_details [ascii ''Y''] =
      [the (reposting_details (ascii ''Y''))]"
    by (simp add: reposting_details_def has_description_and_id_def strip_examples ascii_Nil)
  note t1 = dedup_filter[of rev scraped_ACD known_ids known_pairs reposting_details ascii_lower
      ?items already_stored]
  note t2 = dedup_filter[of rev scraped_ACD known_ids known_pairs reposting_details ascii_lower
      ?items reposting]
  note t3 = dedup_filter[of rev scraped_ACD known_ids known_pairs reposting_details ascii_lower
      ?items nameless]
  show ?thesis
    using t1 t2 t3 example_items example_new_ids example_linkedin d by simp
qed

section \<open>The retry loop\<close>

lemma all_429:
  assumes "\<forall>n. srv n = HTTPError 429"
  shows "max_retries - retries = int k \<Longrightarrow>
    fetch_with_retries max_retries srv retries n = (None, max_retries, Suc (n + k))"
proof (induction k arbitrary: retries n)
  case 0
  then have "retries = max_retries" by simp
  then show ?case using assms
    by (subst fetch_with_retries.simps) simp
next
  case (Suc k)
  then have lt: "retries < max_retries" by simp
  have "fetch_with_retries max_retries srv retries n =
        fetch_with_retries max_retries srv (retries + 1) (Suc n)"
    using lt assms by (subst fetch_with_retries.simps) simp
  also have "\<dots> = (None, max_retries, Suc (Suc n + k))"
    by (rule Suc.IH) (use Suc.prems in simp)
  finally show ?case by simp
qed

lemma abort_now:
  assumes "retries \<le> max_retries" "aborting (srv n)"
  shows "fetch_with_retries max_retries srv retries n = (None, retries, Suc n)"
  using assms
  by (subst fetch_with_retries.simps) (simp add: aborting_def split: http_outcome.splits)

lemma abort_after:
  assumes "aborting (srv (n + k))" "\<forall>i<k. srv (n + i) = HTTPError 429"
  shows "retries + int k \<le> max_retries \<Longrightarrow>
    fetch_with_retries max_retries srv retries n = (None, retries + int k, Suc (n + k))"
  using assms
proof (induction k arbitrary: retries n)
  case 0
  then show ?case using abort_now[of retries max_retries srv n] by simp
next
  case (Suc k)
  have s0: "srv n = HTTPError 429" using Suc.prems(3)[rule_format, of 0] by simp
  have "fetch_with_retries max_retries srv retries n =
        fetch_with_retries max_retries srv (retries + 1) (Suc n)"
    using Suc.prems(1) s0 by (subst fetch_with_retries.simps) simp
  also have "\<dots> = (None, retries + 1 + int k, Suc (Suc n + k))"
  proof (rule Suc.IH)
    show "retries + 1 + int k \<le> max_retries" using Suc.prems(1) by simp
    show "aborting (srv (Suc n + k))" using Suc.prems(2) by simp
    show "\<forall>i<k. srv (Suc n + i) = HTTPError 429"
      using Suc.prems(3) by (metis Suc_less_eq add_Suc_right add_Suc)
  qed
  finally show ?case by simp
qed


text \<open>
  C5, as stated, has the loop report a failure after exhausted retries as
  retryable-exhausted and any other failure as non-retryable. The loop makes no such
  report: three retries on 429 followed by a fourth 429, and three retries on 429 followed
  by a 404, leave through the same branch with the same result, no response and
  \<open>retries = 3\<close> after four requests.
\<close>

theorem exhausted_and_aborted_look_the_same:
  "fetch_with_retries 3 (always (HTTPError 429)) 0 0 = (None, 3, 4) \<and>
   fetch_with_retries 3 throttled_then_not_found 0 0 = (None, 3, 4)"
proof
  have "\<forall>n. always (HTTPError 429) n = HTTPError 429" by (simp add: always_def)
  from all_429[OF this, of 3 0 3 0]
  show "fetch_with_retries 3 (always (HTTPError 429)) 0 0 = (None, 3, 4)" by simp
next
  have a: "aborting (throttled_then_not_found (0 + 3))"
    by (simp add: throttled_then_not_found_def aborting_def)
  have b: "\<forall>i<3. throttled_then_not_found (0 + i) = HTTPError 429"
    by (simp add: throttled_then_not_found_def)
  from abort_after[OF a b, of 0 3]
  show "fetch_with_retries 3 throttled_then_not_found 0 0 = (None, 3, 4)" by simp
qed

text \<open>
  C5, amended. With \<open>config.MAX_RETRIES\<close> not negative: when every response is a 429, the
  loop sends \<open>MAX_RETRIES + 1\<close> requests, ends with \<open>retries = MAX_RETRIES\<close> and yields no
  response; when the first outcome is another HTTP error status or a transport failure, it
  sends that one request, ends with \<open>retries = 0\<close> and yields no response; and such an
  outcome after \<open>k\<close> throttled attempts ends the loop on the spot. In every case the
  failure is the same \<open>None\<close>.
\<close>

theorem retries_on_429_only:
  "0 \<le> max_retries \<Longrightarrow>
   ((\<forall>n. srv n = HTTPError 429) \<longrightarrow>
      fetch_with_retries max_retries srv 0 0 = (None, max_retries, Suc (nat max_retries))) \<and>
   (aborting (srv 0) \<longrightarrow> fetch_with_retries max_retries srv 0 0 = (None, 0, 1)) \<and>
   (int k \<le> max_retries \<and> (\<forall>i<k. srv i = HTTPError 429) \<and> aborting (srv k) \<longrightarrow>
      fetch_with_retries max_retries srv 0 0 = (None, int k, Suc k))"
proof (intro conjI impI)
  assume m: "0 \<le> max_retries" and a: "\<forall>n. srv n = HTTPError 429"
  have "max_retries - 0 = int (nat max_retries)" using m by simp
  from all_429[OF a this, of 0]
  show "fetch_with_retries max_retries srv 0 0 = (None, max_retries, Suc (nat max_retries))"
    by simp
next
  assume m: "0 \<le> max_retries" and a: "aborting (srv 0)"
  show "fetch_with_retries max_retries srv 0 0 = (None, 0, 1)"
    using m a abort_now[of 0 max_retries srv 0] by simp
next
  assume a: "int k \<le> max_retries \<and> (\<forall>i<k. srv i = HTTPError 429) \<and> aborting (srv k)"
  show "fetch_with_retries max_retries srv 0 0 = (None, int k, Suc k)"
    using a abort_after[of srv 0 k 0 max_retries] by simp
qed

theorem retries_on_429_only_witness:
  "(0::int) \<le> 3 \<and> always (HTTPError 429) = (\<lambda>n. HTTPError 429) \<and>
   fetch_with_retries 3 (always (HTTPError 429)) 0 0 = (None, 3, 4) \<and>
   aborting (always (HTTPError 404) 0) \<and>
   fetch_with_retries 3 (always (HTTPError 404)) 0 0 = (None, 0, 1) \<and>
   int 1 \<le> 3 \<and> throttled_then_timeout 0 = HTTPError 429 \<and>
   aborting (throttled_then_timeout 1) \<and>
   fetch_with_retries 3 throttled_then_timeout 0 0 = (None, 1, 2)"
proof -
  have a: "\<forall>n. always (HTTPError 429) n = HTTPError 429" by (simp add: always_def)
  have b: "aborting (always (HTTPError 404) 0)" by (simp add: always_def aborting_def)
  have c: "\<forall>i<1. throttled_then_timeout i = HTTPError 429"
    by (simp add: throttled_then_timeout_def)
  have d: "aborting (throttled_then_timeout 1)"
    by (simp add: throttled_then_timeout_def aborting_def)
  have m: "(0::int) \<le> 3" by simp
  have e: "always (HTTPError 429) = (\<lambda>n. HTTPError 429)" by (rule ext) (simp add: always_def)
  have f: "throttled_then_timeout 0 = HTTPError 429" by (simp add: throttled_then_timeout_def)
  show ?thesis
    using a b c d e f
      retries_on_429_only[OF m, of "always (HTTPError 429)" 0]
      retries_on_429_only[OF m, of "always (HTTPError 404)" 0]
      retries_on_429_only[OF m, of throttled_then_timeout 1]
    by simp
qed

section \<open>The search loop\<close>

text \<open>The link the loop follows is the link the server supplied.\<close>

lemma supplied_link_Page:
  "supplied_link (Page data) = (if truthy (next_href data) then next_href data else None)"
  by (auto simp: supplied_link_def next_href_def truthy_def split: option.splits)

lemma supplied_link_errors:
  "supplied_link SearchHTTPError = None" "supplied_link SearchRequestException = None"
  "supplied_link SearchJSONDecodeError = None"
  by (simp_all add: supplied_link_def)

lemma truthy_Some: "truthy u \<Longrightarrow> \<exists>s. u = Some s \<and> s \<noteq> []"
  by (cases u) (simp_all add: truthy_def)

lemma request_sent_simps:
  "requested (request_sent u st) = requested st @ [u]"
  "total_api_calls_for_search (request_sent u st) = Suc (total_api_calls_for_search st)"
  "all_job_items (request_sent u st) = all_job_items st"
  "logged_totals (request_sent u st) = logged_totals st"
  by (simp_all add: request_sent_def)

lemma page_received_simps:
  "requested (page_received data st) = requested st"
  "total_api_calls_for_search (page_received data st) = total_api_calls_for_search st"
  "all_job_items (page_received data st) = all_job_items st @ page_results data"
  by (simp_all add: page_received_def)

lemma page_received_later:
  "1 < total_api_calls_for_search st \<Longrightarrow> logged_totals (page_received data st) = logged_totals st"
  by (simp add: page_received_def split: option.splits)

lemma search_loop_trace:
  "search_loop fuel srv url st = Some st' \<Longrightarrow>
   \<exists>new. requested st' = requested st @ new \<and>
         total_api_calls_for_search st' = total_api_calls_for_search st + length new \<and>
         (case new of [] \<Rightarrow> \<not> truthy url | u # rest \<Rightarrow> truthy url \<and> url = Some u) \<and>
         link_chain srv (total_api_calls_for_search st) new"
proof (induction fuel arbitrary: url st)
  case 0
  then have "\<not> truthy url" "st' = st" by (auto split: if_splits)
  then show ?case by (intro exI[of _ "[]"]) simp
next
  case (Suc fuel)
  show ?case
  proof (cases "truthy url")
    case False
    then have "st' = st" using Suc.prems by simp
    then show ?thesis using False by (intro exI[of _ "[]"]) simp
  next
    case True
    then obtain u where u: "url = Some u" "u \<noteq> []" using truthy_Some by blast
    let ?n = "total_api_calls_for_search st"
    let ?st1 = "request_sent u st"
    show ?thesis
    proof (cases "srv (Suc ?n) u")
      case (Page data)
      let ?st2 = "page_received data ?st1"
      have "search_loop fuel srv (next_href data) ?st2 = Some st'"
        using Suc.prems True u Page by (simp add: Let_def request_sent_simps)
      from Suc.IH[OF this] obtain new where new:
        "requested st' = requested ?st2 @ new"
        "total_api_calls_for_search st' = total_api_calls_for_search ?st2 + length new"
        "(case new of [] \<Rightarrow> \<not> truthy (next_href data)
          | v # rest \<Rightarrow> truthy (next_href data) \<and> next_href data = Some v)"
        "link_chain srv (total_api_calls_for_search ?st2) new"
        by blast
      have chain: "link_chain srv ?n (u # new)"
      proof (cases new)
        case Nil
        then show ?thesis using new(3) Page by (simp add: supplied_link_Page)
      next
        case (Cons v rest)
        then show ?thesis using new(3,4) Page
          by (auto simp: supplied_link_Page request_sent_simps page_received_simps)
      qed
      show ?thesis
        using new(1,2) chain True u
        by (intro exI[of _ "u # new"]) (simp add: request_sent_simps page_received_simps)
    next
      case SearchHTTPError
      then have "st' = ?st1" using Suc.prems True u by (simp add: Let_def request_sent_simps)
      then show ?thesis using True u SearchHTTPError
        by (intro exI[of _ "[u]"]) (simp add: supplied_link_errors request_sent_simps)
    next
      case SearchRequestException
      then have "st' = ?st1" using Suc.prems True u by (simp add: Let_def request_sent_simps)
      then show ?thesis using True u SearchRequestException
        by (intro exI[of _ "[u]"]) (simp add: supplied_link_errors request_sent_simps)
    next
      case SearchJSONDecodeError
      then have "st' = ?st1" using Suc.prems True u by (simp add: Let_def request_sent_simps)
      then show ?thesis using True u SearchJSONDecodeError
        by (intro exI[of _ "[u]"]) (simp add: supplied_link_errors request_sent_simps)
    qed
  qed
qed

lemma search_loop_later_totals:
  "search_loop fuel srv url st = Some st' \<Longrightarrow> 0 < total_api_calls_for_search st \<Longrightarrow>
   logged_totals st' = logged_totals st"
proof (induction fuel arbitrary: url st)
  case 0
  then show ?case by (auto split: if_splits)
next
  case (Suc fuel)
  show ?case
  proof (cases "truthy url")
    case False
    then show ?thesis using Suc.prems by simp
  next
    case True
    let ?st1 = "request_sent (the url) st"
    have n1: "1 < total_api_calls_for_search ?st1"
      using Suc.prems(2) by (simp add: request_sent_simps)
    show ?thesis
    proof (cases "srv (total_api_calls_for_search ?st1) (the url)")
      case (Page data)
      then have "search_loop fuel srv (next_href data) (page_received data ?st1) = Some st'"
        using Suc.prems True by (simp add: Let_def)
      from Suc.IH[OF this] show ?thesis
        using n1 by (simp add: page_received_later page_received_simps request_sent_simps)
    next
      case SearchHTTPError
      then show ?thesis using Suc.prems True by (auto simp: Let_def request_sent_simps)
    next
      case SearchRequestException
      then show ?thesis using Suc.prems True by (auto simp: Let_def request_sent_simps)
    next
      case SearchJSONDecodeError
      then show ?thesis using Suc.prems True by (auto simp: Let_def request_sent_simps)
    qed
  qed
qed

lemma without_log_request_sent:
  "without_log st = without_log st' \<Longrightarrow>
   without_log (request_sent u st) = without_log (request_sent u st') \<and>
   total_api_calls_for_search st = total_api_calls_for_search st'"
  by (cases st; cases st') (simp add: without_log_def request_sent_def)

lemma without_log_page_received:
  "without_log st = without_log st' \<Longrightarrow>
   without_log (page_received (data\<lparr>page_total := x\<rparr>) st) = without_log (page_received data st')"
  by (cases st; cases st') (simp add: without_log_def page_received_def)

lemma next_href_total: "next_href (data\<lparr>page_total := x\<rparr>) = next_href data"
  by (simp add: next_href_def)

lemma search_loop_totals_irrelevant:
  "without_log st = without_log st' \<Longrightarrow>
   map_option without_log (search_loop fuel (with_totals f srv) url st) =
   map_option without_log (search_loop fuel srv url st')"
proof (induction fuel arbitrary: url st st')
  case 0
  then show ?case by simp
next
  case (Suc fuel)
  show ?case
  proof (cases "truthy url")
    case False
    then show ?thesis using Suc.prems by simp
  next
    case True
    let ?u = "the url"
    have rs: "without_log (request_sent ?u st) = without_log (request_sent ?u st')"
      and n: "total_api_calls_for_search st = total_api_calls_for_search st'"
      using without_log_request_sent[OF Suc.prems] by simp_all
    show ?thesis
    proof (cases "srv (Suc (total_api_calls_for_search st')) ?u")
      case (Page data)
      have "without_log (page_received (data\<lparr>page_total := f data\<rparr>) (request_sent ?u st)) =
            without_log (page_received data (request_sent ?u st'))"
        using rs by (rule without_log_page_received)
      from Suc.IH[OF this] show ?thesis
        using True Page n
        by (simp add: Let_def with_totals_def request_sent_simps next_href_total)
    next
      case SearchHTTPError
      then show ?thesis using True n rs
        by (simp add: Let_def with_totals_def request_sent_simps)
    next
      case SearchRequestException
      then show ?thesis using True n rs
        by (simp add: Let_def with_totals_def request_sent_simps)
    next
      case SearchJSONDecodeError
      then show ?thesis using True n rs
        by (simp add: Let_def with_totals_def request_sent_simps)
    qed
  qed
qed

text \<open>The loop returns exactly when the chain of supplied links ends within the fuel.\<close>

lemma search_loop_returns:
  "u \<noteq> [] \<Longrightarrow>
   (\<exists>st'. search_loop b srv (Some u) st = Some st') =
     ends_within b srv (total_api_calls_for_search st) u"
proof (induction b arbitrary: u st)
  case 0
  then show ?case by (simp add: truthy_def)
next
  case (Suc b)
  let ?n = "total_api_calls_for_search st"
  let ?st1 = "request_sent u st"
  have t: "truthy (Some u)" using Suc.prems by (simp add: truthy_def)
  show ?case
  proof (cases "srv (Suc ?n) u")
    case (Page data)
    show ?thesis
    proof (cases "truthy (next_href data)")
      case True
      then obtain v where v: "next_href data = Some v" "v \<noteq> []"
        using truthy_Some by blast
      have "(\<exists>st'. search_loop b srv (Some v) (page_received data ?st1) = Some st') =
            ends_within b srv (Suc ?n) v"
        using Suc.IH[OF v(2), of "page_received data ?st1"]
        by (simp add: page_received_simps request_sent_simps)
      then show ?thesis using t Page True v
        by (simp add: Let_def request_sent_simps supplied_link_Page)
    next
      case False
      then have "search_loop b srv (next_href data) (page_received data ?st1) =
          Some (page_received data ?st1)"
        by (cases b) simp_all
      then show ?thesis using t Page False
        by (simp add: Let_def request_sent_simps supplied_link_Page)
    qed
  next
    case SearchHTTPError
    then show ?thesis using t by (simp add: Let_def request_sent_simps supplied_link_errors)
  next
    case SearchRequestException
    then show ?thesis using t by (simp add: Let_def request_sent_simps supplied_link_errors)
  next
    case SearchJSONDecodeError
    then show ?thesis using t by (simp add: Let_def request_sent_simps supplied_link_errors)
  qed
qed

text \<open>
  C9. The board-source search loop returns exactly when the chain of links the server
  supplies ends: with enough fuel for that chain it returns, and with less it is still
  running. In a completed run the first request goes to the initial URL, and each request
  is followed by another one exactly when its response is a page with a non-empty
  \<open>_links.next.href\<close>, the next request going to that link (\<open>link_chain\<close>). The logged
  totals are the total of the first page, if it has one, and nothing else. Replacing the
  totals the server reports by any others changes neither the requests, nor the items
  collected, nor whether the loop ends.
\<close>

theorem next_link_drives_search:
  "(\<exists>st'. search_careers_future fuel srv = Some st') =
     ends_within fuel srv 0 first_search_url \<and>
   (search_careers_future fuel srv = Some st \<longrightarrow>
      (\<exists>rest. requested st = first_search_url # rest) \<and>
      total_api_calls_for_search st = length (requested st) \<and>
      link_chain srv 0 (requested st) \<and>
      logged_totals st = first_total (srv 1 first_search_url)) \<and>
   map_option without_log (search_careers_future fuel (with_totals f srv)) =
     map_option without_log (search_careers_future fuel srv)"
proof (intro conjI impI)
  have "first_search_url \<noteq> []" by (simp add: first_search_url_def)
  from search_loop_returns[OF this, of fuel srv initial_search_state]
  show "(\<exists>st'. search_careers_future fuel srv = Some st') =
     ends_within fuel srv 0 first_search_url"
    by (simp add: search_careers_future_def initial_search_state_def)
next
  assume run: "search_careers_future fuel srv = Some st"
  have t: "truthy (Some first_search_url)"
    by (simp add: truthy_def first_search_url_def)
  from run obtain new where new:
    "requested st = requested initial_search_state @ new"
    "total_api_calls_for_search st = total_api_calls_for_search initial_search_state + length new"
    "(case new of [] \<Rightarrow> \<not> truthy (Some first_search_url)
      | u # rest \<Rightarrow> truthy (Some first_search_url) \<and> Some first_search_url = Some u)"
    "link_chain srv (total_api_calls_for_search initial_search_state) new"
    unfolding search_careers_future_def using search_loop_trace by blast
  have i: "requested initial_search_state = []" "total_api_calls_for_search initial_search_state = 0"
    by (simp_all add: initial_search_state_def)
  show "\<exists>rest. requested st = first_search_url # rest"
    using new(1,3) t i by (cases new) auto
  show "total_api_calls_for_search st = length (requested st)"
    using new(1,2) i by simp
  show "link_chain srv 0 (requested st)"
    using new(1,4) i by simp
  show "logged_totals st = first_total (srv 1 first_search_url)"
  proof (cases fuel)
    case 0
    then show ?thesis using run t by (simp add: search_careers_future_def)
  next
    case (Suc fuel')
    let ?st1 = "request_sent first_search_url initial_search_state"
    have c1: "total_api_calls_for_search ?st1 = 1" "logged_totals ?st1 = []"
      by (simp_all add: request_sent_def initial_search_state_def)
    show ?thesis
    proof (cases "srv 1 first_search_url")
      case (Page data)
      then have "search_loop fuel' srv (next_href data) (page_received data ?st1) = Some st"
        using run Suc t c1 by (simp add: search_careers_future_def Let_def)
      then have "logged_totals st = logged_totals (page_received data ?st1)"
        by (rule search_loop_later_totals) (simp add: page_received_simps c1)
      then show ?thesis using Page c1
        by (simp add: page_received_def first_total_def split: option.splits)
    next
      case SearchHTTPError
      then show ?thesis using run Suc t c1
        by (auto simp: search_careers_future_def Let_def first_total_def)
    next
      case SearchRequestException
      then show ?thesis using run Suc t c1
        by (auto simp: search_careers_future_def Let_def first_total_def)
    next
      case SearchJSONDecodeError
      then show ?thesis using run Suc t c1
        by (auto simp: search_careers_future_def Let_def first_total_def)
    qed
  qed
next
  show "map_option without_log (search_careers_future fuel (with_totals f srv)) =
     map_option without_log (search_careers_future fuel srv)"
    unfolding search_careers_future_def by (rule search_loop_totals_irrelevant) simp
qed


lemma two_pages_run: "search_careers_future (Suc (Suc (Suc 0))) two_pages = Some two_pages_result"
  by (simp add: search_careers_future_def two_pages_def two_pages_result_def
      initial_search_state_def request_sent_def page_received_def next_href_def truthy_def
      first_search_url_def Let_def)

lemma two_pages_short: "search_careers_future (Suc 0) two_pages = None"
  by (simp add: search_careers_future_def two_pages_def initial_search_state_def
      request_sent_def page_received_def next_href_def truthy_def first_search_url_def Let_def)

lemma two_pages_ends:
  "ends_within (Suc (Suc (Suc 0))) two_pages 0 first_search_url"
  "\<not> ends_within (Suc 0) two_pages 0 first_search_url"
  by (simp_all add: two_pages_def supplied_link_def first_search_url_def)

theorem next_link_drives_search_witness:
  "ends_within (Suc (Suc (Suc 0))) two_pages 0 first_search_url \<and>
   \<not> ends_within (Suc 0) two_pages 0 first_search_url \<and>
   search_careers_future (Suc 0) two_pages = None \<and>
   search_careers_future (Suc (Suc (Suc 0))) two_pages = Some two_pages_result \<and>
   (\<exists>rest. requested two_pages_result = first_search_url # rest) \<and>
   total_api_calls_for_search two_pages_result = length (requested two_pages_result) \<and>
   link_chain two_pages 0 (requested two_pages_result) \<and>
   logged_totals two_pages_result = first_total (two_pages 1 first_search_url)"
  using two_pages_run two_pages_short two_pages_ends
    next_link_drives_search[of "Suc (Suc (Suc 0))" two_pages two_pages_result]
  by blast

end
